theory Spec2Isabelle
  imports Main
begin

section \<open>Values, strings and exceptions of the host language\<close>

text \<open>
  The program is a browser script (\<^verbatim>\<open>script.js\<close>): a table of attack surfaces, a
  button that appends a row and a button that sends the rows to a text-generation
  endpoint and writes the answer back into the table. The script works on values that
  come out of \<^verbatim>\<open>res.json()\<close> and \<^verbatim>\<open>JSON.parse\<close>; they are modelled by the datatype
  below. \<open>Undefined\<close> is the result of reading a property that is not there. An
  object is the list of its own properties. A number is kept as the text that
  conversion to a string gives it (\<^verbatim>\<open>5\<close>, \<^verbatim>\<open>-1\<close>, \<^verbatim>\<open>1.5\<close>, \<^verbatim>\<open>1e+21\<close>): the script
  never computes with a number, it only converts it to a string or tests whether it is
  truthy, and a number is falsy exactly when that text is \<^verbatim>\<open>0\<close> (for both zeros) or
  \<^verbatim>\<open>NaN\<close>.
\<close>

datatype jsval =
    Undefined
  | Null
  | Bool bool
  | Num string
  | Str string
  | Arr "jsval list"
  | Obj "(string \<times> jsval) list"

text \<open>
  An exception is either \<^verbatim>\<open>new Error(msg)\<close>, thrown by the script itself, or one of the
  exceptions raised by the platform: \<open>TypeError\<close> (a property of \<^verbatim>\<open>undefined\<close> or
  \<^verbatim>\<open>null\<close> is read, a non-function is called, \<^verbatim>\<open>fetch\<close> rejects), \<open>SyntaxError\<close>
  (\<^verbatim>\<open>res.json()\<close> rejects) and \<open>IndexSizeError\<close> (\<^verbatim>\<open>insertCell\<close> beyond the end of a row).
\<close>

datatype js_exn = Error string | TypeError | SyntaxError | IndexSizeError

text \<open>
  The text of the error region. The wording of a platform exception's message depends
  on the browser, so it is kept symbolic: \<open>EngineText e\<close> is whatever message the
  browser gives to \<open>e\<close>.
\<close>

datatype display = Text string | EngineText js_exn

fun message :: "js_exn \<Rightarrow> display" where
  "message (Error s) = Text s"
| "message e = EngineText e"

text \<open>
  Decimal rendering of a position in an array or in the collection of rows, as the
  template literal of the prompt and the names of indexed properties have it.
\<close>

definition digit :: "nat \<Rightarrow> char" where
  "digit d = ''0123456789'' ! d"

fun show_nat :: "nat \<Rightarrow> string" where
  "show_nat n = (if n < 10 then [digit n] else show_nat (n div 10) @ [digit (n mod 10)])"

declare show_nat.simps [simp del]

text \<open>\<^verbatim>\<open>Array.prototype.join\<close> on an array of strings.\<close>

fun js_join :: "string \<Rightarrow> string list \<Rightarrow> string" where
  "js_join sep [] = []"
| "js_join sep [x] = x"
| "js_join sep (x # y # ys) = x @ sep @ js_join sep (y # ys)"

text \<open>
  String conversion, which can raise. An object that has no own property
  \<^verbatim>\<open>toString\<close> inherits the one that gives \<^verbatim>\<open>[object Object]\<close>. An own property
  \<^verbatim>\<open>toString\<close> of a parsed object is never a function, so the conversion goes on to
  \<^verbatim>\<open>valueOf\<close>, which gives no primitive value either, and ends in a \<open>TypeError\<close>. An
  array is converted by \<^verbatim>\<open>join\<close> with a comma. Inside \<^verbatim>\<open>join\<close> the elements
  \<^verbatim>\<open>undefined\<close> and \<^verbatim>\<open>null\<close> become the empty string and the others are converted
  from left to right.
\<close>

fun to_string :: "jsval \<Rightarrow> js_exn + string"
  and to_strings :: "jsval list \<Rightarrow> js_exn + string list" where
  "to_string Undefined = Inr ''undefined''"
| "to_string Null = Inr ''null''"
| "to_string (Bool b) = Inr (if b then ''true'' else ''false'')"
| "to_string (Num s) = Inr s"
| "to_string (Str s) = Inr s"
| "to_string (Arr xs) =
     (case to_strings xs of Inl e \<Rightarrow> Inl e | Inr ss \<Rightarrow> Inr (js_join '','' ss))"
| "to_string (Obj kvs) =
     (case map_of kvs ''toString'' of
        None \<Rightarrow> Inr ''[object Object]''
      | Some v \<Rightarrow> Inl TypeError)"
| "to_strings [] = Inr []"
| "to_strings (x # xs) =
     (case (if x = Undefined \<or> x = Null then Inr [] else to_string x) of
        Inl e \<Rightarrow> Inl e
      | Inr s \<Rightarrow> (case to_strings xs of Inl e \<Rightarrow> Inl e | Inr ss \<Rightarrow> Inr (s # ss)))"

text \<open>\<^verbatim>\<open>Array.prototype.join\<close> on an array of values.\<close>

definition join_values :: "string \<Rightarrow> jsval list \<Rightarrow> js_exn + string" where
  "join_values sep xs =
     (case to_strings xs of Inl e \<Rightarrow> Inl e | Inr ss \<Rightarrow> Inr (js_join sep ss))"

text \<open>Truthiness, as \<^verbatim>\<open>||\<close> tests it.\<close>

fun truthy :: "jsval \<Rightarrow> bool" where
  "truthy Undefined = False"
| "truthy Null = False"
| "truthy (Bool b) = b"
| "truthy (Num s) = (s \<noteq> ''0'' \<and> s \<noteq> ''NaN'')"
| "truthy (Str s) = (s \<noteq> [])"
| "truthy (Arr xs) = True"
| "truthy (Obj kvs) = True"

text \<open>
  Reading a named property \<^verbatim>\<open>v.k\<close>. The names the script reads (\<^verbatim>\<open>error\<close>,
  \<^verbatim>\<open>message\<close>, \<^verbatim>\<open>output\<close>, \<^verbatim>\<open>content\<close>, \<^verbatim>\<open>text\<close>, \<^verbatim>\<open>index\<close>, \<^verbatim>\<open>threats\<close>, \<^verbatim>\<open>type\<close>,
  \<^verbatim>\<open>description\<close>) are not inherited by any value, so only an object can have them.
\<close>

fun get_prop :: "jsval \<Rightarrow> string \<Rightarrow> js_exn + jsval" where
  "get_prop Undefined k = Inl TypeError"
| "get_prop Null k = Inl TypeError"
| "get_prop (Obj kvs) k = Inr (case map_of kvs k of None \<Rightarrow> Undefined | Some v \<Rightarrow> v)"
| "get_prop v k = Inr Undefined"

text \<open>Reading an indexed property \<^verbatim>\<open>v[n]\<close>.\<close>

fun get_index :: "jsval \<Rightarrow> nat \<Rightarrow> js_exn + jsval" where
  "get_index Undefined n = Inl TypeError"
| "get_index Null n = Inl TypeError"
| "get_index (Arr xs) n = Inr (if n < length xs then xs ! n else Undefined)"
| "get_index (Str s) n = Inr (if n < length s then Str [s ! n] else Undefined)"
| "get_index (Obj kvs) n =
     Inr (case map_of kvs (show_nat n) of None \<Rightarrow> Undefined | Some v \<Rightarrow> v)"
| "get_index v n = Inr Undefined"

text \<open>Optional chaining \<^verbatim>\<open>v?.k\<close>.\<close>

definition get_prop_opt :: "jsval \<Rightarrow> string \<Rightarrow> js_exn + jsval" where
  "get_prop_opt v k = (if v = Undefined \<or> v = Null then Inr Undefined else get_prop v k)"

definition and_then :: "js_exn + 'a \<Rightarrow> ('a \<Rightarrow> js_exn + 'b) \<Rightarrow> js_exn + 'b" where
  "and_then r f = (case r of Inl e \<Rightarrow> Inl e | Inr v \<Rightarrow> f v)"

text \<open>
  \<^verbatim>\<open>String.prototype.trim\<close>. A character of the model is a code unit below 256; the
  white space and line terminators among them are tab, line feed, vertical tab, form
  feed, carriage return, space and the no-break space.
\<close>

definition is_ws :: "char \<Rightarrow> bool" where
  "is_ws c = (c \<in> set [CHR 0x09, CHR 0x0A, CHR 0x0B, CHR 0x0C, CHR 0x0D, CHR 0x20, CHR 0xA0])"

definition trim :: "string \<Rightarrow> string" where
  "trim s = rev (dropWhile is_ws (rev (dropWhile is_ws s)))"


section \<open>The page\<close>

text \<open>
  A table cell: its text (\<^verbatim>\<open>innerText\<close>) and whether the script has set the
  \<^verbatim>\<open>contenteditable\<close> attribute on it.
\<close>

record cell =
  innerText :: string
  contenteditable :: bool

text \<open>\<^verbatim>\<open>insertCell\<close> creates an empty cell without attributes.\<close>

definition new_cell :: cell where
  "new_cell = \<lparr>innerText = [], contenteditable = False\<rparr>"

text \<open>
  The part of the document the script reads and writes: the values of the input
  elements by id (\<^verbatim>\<open>document.getElementById(id).value\<close>), the cells of the header row
  (\<^verbatim>\<open>table.tHead.rows[0].cells\<close>), the rows of the body (\<^verbatim>\<open>table.tBodies[0].rows\<close>),
  each with its cells, and the text of the error region (\<^verbatim>\<open>errorDiv.textContent\<close>).
\<close>

record page =
  inputs :: "(string \<times> string) list"
  thead :: "cell list"
  tbody :: "cell list list"
  errorDiv :: display

text \<open>
  \<^verbatim>\<open>row.insertCell(i)\<close>: the new cell goes to position \<open>i\<close>; a position beyond the
  end of the row raises \<open>IndexSizeError\<close>. \<^verbatim>\<open>row.insertCell()\<close> appends.
\<close>

definition insertCell :: "cell list \<Rightarrow> nat \<Rightarrow> js_exn + cell list" where
  "insertCell tr i =
     (if i \<le> length tr then Inr (take i tr @ [new_cell] @ drop i tr) else Inl IndexSizeError)"

definition appendCell :: "cell list \<Rightarrow> cell list" where
  "appendCell tr = tr @ [new_cell]"

subsection \<open>The click handler of the add-row button\<close>

text \<open>
  \<^verbatim>\<open>
  const row = table.tBodies[0].insertRow();
  row.insertCell().setAttribute('contenteditable', 'true');
  row.insertCell().setAttribute('contenteditable', 'true');
  if (table.tHead.rows[0].cells.length > 2) { row.insertCell(); row.insertCell(); }
  \<close>
\<close>

definition add_row :: "page \<Rightarrow> page" where
  "add_row p =
     (let row0 = [];
          row1 = row0 @ [new_cell\<lparr>contenteditable := True\<rparr>];
          row2 = row1 @ [new_cell\<lparr>contenteditable := True\<rparr>];
          row4 = (if length (thead p) > 2 then appendCell (appendCell row2) else row2)
      in p\<lparr>tbody := tbody p @ [row4]\<rparr>)"

subsection \<open>The taxonomy and the prompt\<close>

record category =
  cat_id :: string
  cat_description :: string

definition categories :: "category list" where
  "categories =
    [\<lparr>cat_id = ''information_leakage'',
      cat_description = ''Exposure of sensitive data via the surface.''\<rparr>,
     \<lparr>cat_id = ''data_integrity_violation'',
      cat_description = ''Unauthorized modification/destruction of data.''\<rparr>,
     \<lparr>cat_id = ''control_plane_subversion'',
      cat_description = ''Unauthorized modification/execution on the control plane.''\<rparr>,
     \<lparr>cat_id = ''denial_of_service'',
      cat_description = ''Degradation or loss of availability.''\<rparr>,
     \<lparr>cat_id = ''illegitimate_use'',
      cat_description = ''Abuse/misuse of resources beyond intended purpose.''\<rparr>,
     \<lparr>cat_id = ''entity_spoofing'',
      cat_description = ''Masquerading as another principal/service.''\<rparr>,
     \<lparr>cat_id = ''forgery'',
      cat_description = ''Fabricating messages/requests accepted as if from a trusted source.''\<rparr>,
     \<lparr>cat_id = ''bypassing_control'',
      cat_description =
        ''Circumventing security controls (filtering, validation, authN/Z gates).''\<rparr>,
     \<lparr>cat_id = ''authorization_violation'',
      cat_description = ''Access beyond assigned permissions.''\<rparr>,
     \<lparr>cat_id = ''trojan'',
      cat_description =
        ''Malicious/compromised components introduced via supply chain or artifact.''\<rparr>,
     \<lparr>cat_id = ''guessing'',
      cat_description =
        ''Ability to deduce or predict sensitive values (e.g., keys, tokens, identifiers).''\<rparr>,
     \<lparr>cat_id = ''repudiation'',
      cat_description =
        ''Denying actions/transactions due to insufficient auditability or tamper-proof logging.''\<rparr>]"

text \<open>
  The snapshot of the body rows taken by the submit handler:
  \<^verbatim>\<open>Array.from(rows).map((tr, idx) => ({index: idx, surface: tr.cells[0].innerText.trim(),
  description: tr.cells[1].innerText.trim()}))\<close>.
  Reading \<^verbatim>\<open>innerText\<close> of a cell that is not there raises \<open>TypeError\<close>.
\<close>

record snap =
  index :: nat
  surface :: string
  description :: string

definition snap_row :: "nat \<Rightarrow> cell list \<Rightarrow> js_exn + snap" where
  "snap_row idx tr =
     (if length tr < 1 then Inl TypeError
      else if length tr < 2 then Inl TypeError
      else Inr \<lparr>index = idx, surface = trim (innerText (tr ! 0)),
                description = trim (innerText (tr ! 1))\<rparr>)"

fun snapshot_from :: "nat \<Rightarrow> cell list list \<Rightarrow> js_exn + snap list" where
  "snapshot_from idx [] = Inr []"
| "snapshot_from idx (tr # trs) =
     (case snap_row idx tr of
        Inl e \<Rightarrow> Inl e
      | Inr r \<Rightarrow> (case snapshot_from (Suc idx) trs of Inl e \<Rightarrow> Inl e | Inr rs \<Rightarrow> Inr (r # rs)))"

definition snapshot :: "cell list list \<Rightarrow> js_exn + snap list" where
  "snapshot trs = snapshot_from 0 trs"

definition nl :: string where
  "nl = [CHR 0x0A]"

definition prompt_head :: string where
  \<open>prompt_head =
     nl @
     ''You are a threat modeling assistant. For each attack surface below, identify applicable threat categories from this list and provide a brief description. Omit categories that do not apply. Respond with JSON only in the form:'' @ nl @
     ''['' @ nl @
     ''  {"index":0,"threats":[{"type":"<category_id>","description":"<text>"}]}'' @ nl @
     '']'' @ nl @
     nl @
     ''Threat Categories:'' @ nl\<close>

definition category_line :: "category \<Rightarrow> string" where
  "category_line c = cat_id c @ '': '' @ cat_description c"

definition surface_line :: "snap \<Rightarrow> string" where
  "surface_line r = ''#'' @ show_nat (index r) @ '': '' @ surface r @ '' - '' @ description r"

definition prompt :: "snap list \<Rightarrow> string" where
  "prompt rows =
     prompt_head @
     js_join nl (map category_line categories) @ nl @
     nl @
     ''Attack Surfaces:'' @ nl @
     js_join nl (map surface_line rows) @ nl"


subsection \<open>Writing a response back into the table\<close>

text \<open>
  \<^verbatim>\<open>rows[item.index]\<close>: the property key is the string conversion of the value, which
  can raise, and the collection of rows has the indexed property \<open>i\<close> for every \<open>i\<close>
  below its length. The rows of the model have no id, so no other key names a row;
  \<open>None\<close> stands for a result that is not a row.
\<close>

definition row_index :: "nat \<Rightarrow> jsval \<Rightarrow> js_exn + nat option" where
  "row_index n v =
     (case to_string v of
        Inl e \<Rightarrow> Inl e
      | Inr key \<Rightarrow> Inr (find (\<lambda>i. show_nat i = key) [0..<n]))"

text \<open>\<^verbatim>\<open>ts.map(t => t[k])\<close>; reading a property of \<^verbatim>\<open>null\<close> raises.\<close>

fun map_props :: "jsval list \<Rightarrow> string \<Rightarrow> js_exn + jsval list" where
  "map_props [] k = Inr []"
| "map_props (t # ts) k =
     and_then (get_prop t k) (\<lambda>v. and_then (map_props ts k) (\<lambda>vs. Inr (v # vs)))"

text \<open>
  \<^verbatim>\<open>item.threats.map(t => t[k]).join('\n')\<close>. Only an array has \<^verbatim>\<open>map\<close>; on any
  other value the call raises \<open>TypeError\<close>.
\<close>

definition threat_column :: "jsval \<Rightarrow> string \<Rightarrow> js_exn + string" where
  "threat_column item k =
     and_then (get_prop item ''threats'')
       (\<lambda>ths. case ths of
                Arr ts \<Rightarrow> and_then (map_props ts k) (\<lambda>vs. join_values nl vs)
              | _ \<Rightarrow> Inl TypeError)"

definition set_text :: "cell list list \<Rightarrow> nat \<Rightarrow> nat \<Rightarrow> string \<Rightarrow> cell list list" where
  "set_text rows i j s = rows[i := (rows ! i)[j := (rows ! i ! j)\<lparr>innerText := s\<rparr>]]"

text \<open>
  The body of \<^verbatim>\<open>parsed.forEach(item => ...)\<close>, lines 91 to 95. The result is the rows
  when the body ends and the exception it ends with, if any. Every statement that can
  raise is a branch, in the order of the source: \<^verbatim>\<open>item.index\<close> on \<^verbatim>\<open>null\<close> and the
  conversion of the index to a property key (line 91), the two columns (lines 92 and
  93), \<^verbatim>\<open>tr.cells\<close> when \<^verbatim>\<open>tr\<close> is not a row and \<^verbatim>\<open>tr.cells[2]\<close> when the row is too
  short (line 94), \<^verbatim>\<open>tr.cells[3]\<close> when the row is too short (line 95).
\<close>

definition apply_item :: "cell list list \<Rightarrow> jsval \<Rightarrow> cell list list \<times> js_exn option" where
  "apply_item rows item =
     (case get_prop item ''index'' of Inl e \<Rightarrow> (rows, Some e) | Inr idx \<Rightarrow>
     (case row_index (length rows) idx of Inl e \<Rightarrow> (rows, Some e) | Inr tr \<Rightarrow>
     (case threat_column item ''type'' of Inl e \<Rightarrow> (rows, Some e) | Inr types \<Rightarrow>
     (case threat_column item ''description'' of Inl e \<Rightarrow> (rows, Some e) | Inr descs \<Rightarrow>
     (case tr of None \<Rightarrow> (rows, Some TypeError) | Some i \<Rightarrow>
        if length (rows ! i) \<le> 2 then (rows, Some TypeError)
        else if length (rows ! i) \<le> 3 then (set_text rows i 2 types, Some TypeError)
        else (set_text (set_text rows i 2 types) i 3 descs, None))))))"

text \<open>\<^verbatim>\<open>forEach\<close>: an exception in the body ends the iteration.\<close>

fun apply_items :: "cell list list \<Rightarrow> jsval list \<Rightarrow> cell list list \<times> js_exn option" where
  "apply_items rows [] = (rows, None)"
| "apply_items rows (item # items) =
     (case apply_item rows item of
        (rows', Some e) \<Rightarrow> (rows', Some e)
      | (rows', None) \<Rightarrow> apply_items rows' items)"

text \<open>
  Lines 84 to 87: \<^verbatim>\<open>forEach(tr => { tr.insertCell(2); tr.insertCell(3); })\<close> over the
  body rows.
\<close>

fun insert_cells :: "cell list list \<Rightarrow> cell list list \<times> js_exn option" where
  "insert_cells [] = ([], None)"
| "insert_cells (tr # trs) =
     (case insertCell tr 2 of
        Inl e \<Rightarrow> (tr # trs, Some e)
      | Inr tr2 \<Rightarrow>
          (case insertCell tr2 3 of
             Inl e \<Rightarrow> (tr2 # trs, Some e)
           | Inr tr3 \<Rightarrow> (case insert_cells trs of (trs', e) \<Rightarrow> (tr3 # trs', e))))"

text \<open>
  Lines 80 to 88: when the header row has exactly two cells, the cells
  \<^verbatim>\<open>Threat Type\<close> and \<^verbatim>\<open>Threat Description\<close> are inserted at positions 2 and 3 of the
  header (its end), and two cells into every body row.
\<close>

definition add_columns :: "page \<Rightarrow> page \<times> js_exn option" where
  "add_columns p =
     (if length (thead p) = 2 then
        (let p1 = p\<lparr>thead := thead p @ [new_cell\<lparr>innerText := ''Threat Type''\<rparr>]\<rparr>;
             p2 = p1\<lparr>thead := thead p1 @ [new_cell\<lparr>innerText := ''Threat Description''\<rparr>]\<rparr>
         in case insert_cells (tbody p2) of (rows, e) \<Rightarrow> (p2\<lparr>tbody := rows\<rparr>, e))
      else (p, None))"

text \<open>Lines 80 to 96, given the parsed payload. Only an array has \<^verbatim>\<open>forEach\<close>.\<close>

definition apply_response :: "page \<Rightarrow> jsval \<Rightarrow> page \<times> js_exn option" where
  "apply_response p parsed =
     (case add_columns p of
        (p1, Some e) \<Rightarrow> (p1, Some e)
      | (p1, None) \<Rightarrow>
          (case parsed of
             Arr items \<Rightarrow> (case apply_items (tbody p1) items of (rows, e) \<Rightarrow> (p1\<lparr>tbody := rows\<rparr>, e))
           | _ \<Rightarrow> (p1, Some TypeError)))"

subsection \<open>The request and its outcome\<close>

text \<open>
  The call of \<^verbatim>\<open>fetch\<close>, lines 57 to 68. \<open>body\<close> is the value handed to
  \<^verbatim>\<open>JSON.stringify\<close>.
\<close>

record request =
  url :: string
  http_method :: string
  headers :: "(string \<times> string) list"
  body :: jsval

definition build_request :: "string \<Rightarrow> string \<Rightarrow> request" where
  "build_request apiKey prmpt =
     \<lparr>url = ''https://api.openai.com/v1/responses'',
      http_method = ''POST'',
      headers = [(''Content-Type'', ''application/json''),
                 (''Authorization'', ''Bearer '' @ apiKey)],
      body = Obj [(''model'', Str ''gpt-4o-mini''),
                  (''input'', Str prmpt),
                  (''response_format'', Obj [(''type'', Str ''json_object'')])]\<rparr>"

text \<open>
  What the two awaits give: \<^verbatim>\<open>fetch\<close> rejects (no response at all), \<^verbatim>\<open>res.json()\<close>
  rejects (the body of the response is not JSON), or both resolve, with the flag
  \<^verbatim>\<open>res.ok\<close> and the value \<^verbatim>\<open>data\<close>. The handler does not touch the page between the
  two awaits.
\<close>

datatype net_result = FetchRejected | JsonRejected | Resolved bool jsval

text \<open>
  \<^verbatim>\<open>data.error?.message || 'Request failed'\<close>, line 71, as the message of the error:
  \<^verbatim>\<open>new Error(m)\<close> converts \<open>m\<close> to a string, and raises when that conversion does.
\<close>

definition error_message :: "jsval \<Rightarrow> js_exn + string" where
  "error_message data =
     and_then (get_prop data ''error'')
       (\<lambda>err. and_then (get_prop_opt err ''message'')
          (\<lambda>m. if truthy m then to_string m else Inr ''Request failed''))"

text \<open>\<^verbatim>\<open>data.output[0].content[0].text\<close>, line 75.\<close>

definition payload :: "jsval \<Rightarrow> js_exn + jsval" where
  "payload data =
     and_then (get_prop data ''output'') (\<lambda>out.
     and_then (get_index out 0) (\<lambda>out0.
     and_then (get_prop out0 ''content'') (\<lambda>content.
     and_then (get_index content 0) (\<lambda>content0.
     get_prop content0 ''text''))))"

text \<open>
  Lines 73 to 78. \<^verbatim>\<open>JSON.parse\<close> is a parameter of the model: it takes the string
  conversion of its argument and gives the parsed value, or \<open>None\<close> when it throws.
  Whatever is thrown inside the inner \<^verbatim>\<open>try\<close> is replaced by the script's own error.
\<close>

definition parse_payload :: "(string \<Rightarrow> jsval option) \<Rightarrow> jsval \<Rightarrow> js_exn + jsval" where
  "parse_payload JSON_parse data =
     (case payload data of
        Inl e \<Rightarrow> Inl (Error ''Failed to parse AI response.'')
      | Inr t \<Rightarrow>
          (case to_string t of
             Inl e \<Rightarrow> Inl (Error ''Failed to parse AI response.'')
           | Inr txt \<Rightarrow>
               (case JSON_parse txt of
                  None \<Rightarrow> Inl (Error ''Failed to parse AI response.'')
                | Some parsed \<Rightarrow> Inr parsed)))"

text \<open>The \<^verbatim>\<open>try\<close> block, lines 56 to 96, from the outcome of the request on.\<close>

definition try_block ::
  "(string \<Rightarrow> jsval option) \<Rightarrow> net_result \<Rightarrow> page \<Rightarrow> page \<times> js_exn option" where
  "try_block JSON_parse res p =
     (case res of
        FetchRejected \<Rightarrow> (p, Some TypeError)
      | JsonRejected \<Rightarrow> (p, Some SyntaxError)
      | Resolved ok data \<Rightarrow>
          if \<not> ok then
            (case error_message data of Inl e \<Rightarrow> (p, Some e) | Inr m \<Rightarrow> (p, Some (Error m)))
          else
            (case parse_payload JSON_parse data of
               Inl e \<Rightarrow> (p, Some e)
             | Inr parsed \<Rightarrow> apply_response p parsed))"

subsection \<open>The click handler of the submit button\<close>

text \<open>
  What one run of the handler leaves behind: the page, the requests it has issued, and
  the exception that left the handler uncaught, if any (lines 33 to 54 are outside the
  \<^verbatim>\<open>try\<close>).
\<close>

record completion =
  final :: page
  requests :: "request list"
  unhandled :: "js_exn option"

definition submit :: "(string \<Rightarrow> jsval option) \<Rightarrow> net_result \<Rightarrow> page \<Rightarrow> completion" where
  "submit JSON_parse res p0 =
     (let p = p0\<lparr>errorDiv := Text []\<rparr> in
      case map_of (inputs p) ''api-key'' of
        None \<Rightarrow> \<lparr>final = p, requests = [], unhandled = Some TypeError\<rparr>
      | Some v \<Rightarrow>
          (let apiKey = trim v in
           if apiKey = [] then
             \<lparr>final = p\<lparr>errorDiv := Text ''API key required.''\<rparr>, requests = [],
              unhandled = None\<rparr>
           else
             (case snapshot (tbody p) of
                Inl e \<Rightarrow> \<lparr>final = p, requests = [], unhandled = Some e\<rparr>
              | Inr rows \<Rightarrow>
                  (let req = build_request apiKey (prompt rows) in
                   case try_block JSON_parse res p of
                     (p', None) \<Rightarrow> \<lparr>final = p', requests = [req], unhandled = None\<rparr>
                   | (p', Some err) \<Rightarrow>
                       \<lparr>final = p'\<lparr>errorDiv := message err\<rparr>, requests = [req],
                        unhandled = None\<rparr>))))"

subsection \<open>Runs\<close>

text \<open>A click on one of the two buttons; a submit click comes with what the network gives.\<close>

datatype event = AddRow | Submit net_result

fun step :: "(string \<Rightarrow> jsval option) \<Rightarrow> page \<Rightarrow> event \<Rightarrow> page" where
  "step JSON_parse p AddRow = add_row p"
| "step JSON_parse p (Submit res) = final (submit JSON_parse res p)"

fun run :: "(string \<Rightarrow> jsval option) \<Rightarrow> page \<Rightarrow> event list \<Rightarrow> page" where
  "run JSON_parse p [] = p"
| "run JSON_parse p (ev # evs) = run JSON_parse (step JSON_parse p ev) evs"

section \<open>Auxiliary definitions\<close>

text \<open>
  The row that \<open>add_row\<close> appends to a page: two editable cells, and two plain
  cells more when the header has more than two cells.
\<close>

definition blank_row :: "page \<Rightarrow> cell list" where
  "blank_row p =
     (if length (thead p) > 2
      then [new_cell\<lparr>contenteditable := True\<rparr>, new_cell\<lparr>contenteditable := True\<rparr>,
            new_cell, new_cell]
      else [new_cell\<lparr>contenteditable := True\<rparr>, new_cell\<lparr>contenteditable := True\<rparr>])"

text \<open>
  Concrete pages for the examples: a key field, a header of two cells and the given
  body rows; \<open>input_row\<close> is a row as \<open>add_row\<close> makes it, after the user has typed
  into its two cells.
\<close>

definition example_page :: "string \<Rightarrow> cell list list \<Rightarrow> page" where
  "example_page key rows =
     \<lparr>inputs = [(''api-key'', key)],
      thead = [\<lparr>innerText = ''Attack Surface'', contenteditable = False\<rparr>,
               \<lparr>innerText = ''Description'', contenteditable = False\<rparr>],
      tbody = rows,
      errorDiv = Text []\<rparr>"

definition input_row :: "string \<Rightarrow> string \<Rightarrow> cell list" where
  "input_row s d =
     [\<lparr>innerText = s, contenteditable = True\<rparr>, \<lparr>innerText = d, contenteditable = True\<rparr>]"

text \<open>
  A page that has, beside the key field, a second input holding the address of another
  endpoint.
\<close>

definition override_page :: page where
  "override_page =
     \<lparr>inputs = [(''api-key'', ''sk-test''),
                (''api-endpoint'', ''https://llm.labs.blackduck.com/v1/responses'')],
      thead = [\<lparr>innerText = ''Attack Surface'', contenteditable = False\<rparr>,
               \<lparr>innerText = ''Description'', contenteditable = False\<rparr>],
      tbody = [input_row ''Login'' ''User login''],
      errorDiv = Text []\<rparr>"

text \<open>
  What trimming promises, independently of how \<open>trim\<close> computes it: \<open>t\<close> is \<open>s\<close>
  without a prefix and a suffix of white space, and \<open>t\<close> neither starts nor ends with
  white space.
\<close>

definition trimmed_of :: "string \<Rightarrow> string \<Rightarrow> bool" where
  "trimmed_of s t \<longleftrightarrow>
     (\<exists>a b. s = a @ t @ b \<and> (\<forall>c\<in>set a. is_ws c) \<and> (\<forall>c\<in>set b. is_ws c)) \<and>
     (t = [] \<or> (\<not> is_ws (hd t) \<and> \<not> is_ws (last t)))"

text \<open>
  The shape of the table the script keeps up: the header has two cells or four, and
  every body row has as many cells as the header.
\<close>

definition grid_ok :: "page \<Rightarrow> bool" where
  "grid_ok p \<longleftrightarrow>
     (length (thead p) = 2 \<or> length (thead p) = 4) \<and>
     (\<forall>tr\<in>set (tbody p). length tr = length (thead p))"

text \<open>The two header cells that lines 82 and 83 insert.\<close>

definition threat_head :: "cell list" where
  "threat_head = [new_cell\<lparr>innerText := ''Threat Type''\<rparr>,
                  new_cell\<lparr>innerText := ''Threat Description''\<rparr>]"

text \<open>
  An entry of a response names row \<open>i\<close> of \<open>n\<close> rows when its \<^verbatim>\<open>index\<close> selects that
  row; \<open>last_entry_for\<close> is the last entry of the response that names the row, if any.
\<close>

definition names_row :: "nat \<Rightarrow> jsval \<Rightarrow> nat \<Rightarrow> bool" where
  "names_row n item i =
     (case get_prop item ''index'' of
        Inl e \<Rightarrow> False
      | Inr v \<Rightarrow> row_index n v = Inr (Some i))"

definition last_entry_for :: "nat \<Rightarrow> jsval list \<Rightarrow> nat \<Rightarrow> jsval option" where
  "last_entry_for n items i = find (\<lambda>item. names_row n item i) (rev items)"

text \<open>
  The threats of a row as the table holds them: the texts of its third and fourth
  cell, the types and the descriptions, one per line; both empty when the row has no
  such cells.
\<close>

definition threats_of :: "cell list \<Rightarrow> string \<times> string" where
  "threats_of tr = (if 3 < length tr then (innerText (tr ! 2), innerText (tr ! 3)) else ([], []))"

text \<open>A row after the two columns of an entry have been written into it.\<close>

definition written :: "cell list \<Rightarrow> jsval \<Rightarrow> cell list" where
  "written old item =
     (case threat_column item ''type'' of
        Inl e \<Rightarrow> old
      | Inr types \<Rightarrow>
          (case threat_column item ''description'' of
             Inl e \<Rightarrow> old
           | Inr descs \<Rightarrow>
               old[2 := (old ! 2)\<lparr>innerText := types\<rparr>, 3 := (old ! 3)\<lparr>innerText := descs\<rparr>]))"

text \<open>
  Concrete responses for the examples. \<open>entry i ty d\<close> is the value of
  \<^verbatim>\<open>{"index": i, "threats": [{"type": ty, "description": d}]}\<close>. \<open>demo_parse\<close> stands
  for \<^verbatim>\<open>JSON.parse\<close> on the payload texts below and throws on every other text;
  \<open>reply_data txt\<close> is a response body that carries \<open>txt\<close> as its payload.
\<close>

definition entry :: "string \<Rightarrow> string \<Rightarrow> string \<Rightarrow> jsval" where
  "entry i ty d =
     Obj [(''index'', Num i),
          (''threats'', Arr [Obj [(''type'', Str ty), (''description'', Str d)]])]"

definition text_single :: string where
  \<open>text_single = ''[{"index":0,"threats":[{"type":"forgery","description":"x"}]}]''\<close>

definition text_three :: string where
  \<open>text_three = ''[{"index":1,"threats":[{"type":"trojan","description":"y"}]},{"index":5,"threats":[{"type":"forgery","description":"x"}]},{"index":0,"threats":[{"type":"forgery","description":"x"}]}]''\<close>

definition text_unknown_first :: string where
  \<open>text_unknown_first = ''[{"index":5,"threats":[{"type":"forgery","description":"x"}]},{"index":0,"threats":[{"type":"forgery","description":"x"}]}]''\<close>

definition text_object :: string where
  \<open>text_object = ''{}''\<close>

definition text_two_threats :: string where
  \<open>text_two_threats = ''[{"index":0,"threats":[{"type":"forgery","description":"x"},{"type":"guessing","description":"z"}]}]''\<close>

definition two_threats :: jsval where
  "two_threats =
     Obj [(''index'', Num ''0''),
          (''threats'', Arr [Obj [(''type'', Str ''forgery''), (''description'', Str ''x'')],
                             Obj [(''type'', Str ''guessing''), (''description'', Str ''z'')]])]"

definition known_payloads :: "(string \<times> jsval) list" where
  "known_payloads =
     [(text_single, Arr [entry ''0'' ''forgery'' ''x'']),
      (text_three,
       Arr [entry ''1'' ''trojan'' ''y'', entry ''5'' ''forgery'' ''x'', entry ''0'' ''forgery'' ''x'']),
      (text_unknown_first, Arr [entry ''5'' ''forgery'' ''x'', entry ''0'' ''forgery'' ''x'']),
      (text_two_threats, Arr [two_threats]),
      (text_object, Obj [])]"

definition demo_parse :: "string \<Rightarrow> jsval option" where
  "demo_parse = map_of known_payloads"

definition reply_data :: "string \<Rightarrow> jsval" where
  "reply_data txt = Obj [(''output'', Arr [Obj [(''content'', Arr [Obj [(''text'', Str txt)]])]])]"

definition two_rows :: page where
  "two_rows =
     example_page ''sk-test''
       [input_row ''Login'' ''User login'', input_row ''Upload'' ''File upload'']"

text \<open>The body of an error response that carries a message of the provider.\<close>

definition provider_error :: jsval where
  "provider_error = Obj [(''error'', Obj [(''message'', Str ''Incorrect API key provided.'')])]"

text \<open>
  A click gets as far as line 80 when it is a submit click, the key is there, the
  snapshot is taken, the response is a success and its payload parses. \<open>ever_parsed\<close>
  says that some click of a run does.
\<close>

fun payload_parsed :: "(string \<Rightarrow> jsval option) \<Rightarrow> page \<Rightarrow> event \<Rightarrow> bool" where
  "payload_parsed JSON_parse p AddRow = False"
| "payload_parsed JSON_parse p (Submit res) =
     ((case map_of (inputs p) ''api-key'' of None \<Rightarrow> False | Some k \<Rightarrow> trim k \<noteq> []) \<and>
      \<not> isl (snapshot (tbody p)) \<and>
      (case res of
         Resolved ok data \<Rightarrow> ok \<and> \<not> isl (parse_payload JSON_parse data)
       | _ \<Rightarrow> False))"

fun ever_parsed :: "(string \<Rightarrow> jsval option) \<Rightarrow> page \<Rightarrow> event list \<Rightarrow> bool" where
  "ever_parsed JSON_parse p [] = False"
| "ever_parsed JSON_parse p (ev # evs) =
     (payload_parsed JSON_parse p ev \<or> ever_parsed JSON_parse (step JSON_parse p ev) evs)"

text \<open>
  What the decimal rendering of a position promises, independently of how \<open>show_nat\<close>
  computes it: the text is not empty, consists of digits, has no leading zero, and
  read from left to right in base ten it gives the number.
\<close>

definition reads_as :: "string \<Rightarrow> nat \<Rightarrow> bool" where
  "reads_as s n \<longleftrightarrow>
     s \<noteq> [] \<and> list_all (\<lambda>c. c \<in> set ''0123456789'') s \<and> (hd s = CHR ''0'' \<longrightarrow> s = ''0'') \<and>
     foldl (\<lambda>a c. 10 * a + (of_char c - 48)) 0 s = n"

text \<open>
  A text made of the given lines with a line feed between them, written without
  \<open>js_join\<close>: every line is followed by a line feed and the last line feed is dropped.
\<close>

definition lines_text :: "string list \<Rightarrow> string" where
  "lines_text xs = (if xs = [] then [] else butlast (concat (map (\<lambda>x. x @ [CHR 0x0A]) xs)))"

text \<open>
  The reading of an entry of the expected form
  \<^verbatim>\<open>{"index": i, "threats": [{"type": t, "description": d}, ...]}\<close>, with strings for
  \<open>t\<close> and \<open>d\<close>, as the list of its pairs \<open>(t, d)\<close>; \<open>None\<close> for an entry of another
  form.
\<close>

fun pair_of :: "jsval \<Rightarrow> (string \<times> string) option" where
  "pair_of (Obj kvs) =
     (case map_of kvs ''type'' of
        Some (Str t) \<Rightarrow> (case map_of kvs ''description'' of Some (Str d) \<Rightarrow> Some (t, d) | _ \<Rightarrow> None)
      | _ \<Rightarrow> None)"
| "pair_of v = None"

fun all_pairs :: "jsval list \<Rightarrow> (string \<times> string) list option" where
  "all_pairs [] = Some []"
| "all_pairs (t # ts) =
     (case pair_of t of
        None \<Rightarrow> None
      | Some pr \<Rightarrow> (case all_pairs ts of None \<Rightarrow> None | Some ps \<Rightarrow> Some (pr # ps)))"

fun pairs_of :: "jsval \<Rightarrow> (string \<times> string) list option" where
  "pairs_of (Obj kvs) = (case map_of kvs ''threats'' of Some (Arr ts) \<Rightarrow> all_pairs ts | _ \<Rightarrow> None)"
| "pairs_of v = None"

text \<open>
  An entry can be written into a table of \<open>n\<close> rows when its index selects a row and
  its two columns can be rendered.
\<close>

definition writable :: "nat \<Rightarrow> jsval \<Rightarrow> bool" where
  "writable n item \<longleftrightarrow>
     (case get_prop item ''index'' of
        Inl e \<Rightarrow> False
      | Inr v \<Rightarrow> (case row_index n v of Inr (Some i) \<Rightarrow> True | _ \<Rightarrow> False)) \<and>
     \<not> isl (threat_column item ''type'') \<and> \<not> isl (threat_column item ''description'')"

text \<open>
  More concrete pages and responses: a page of eleven rows, a page that has been
  classified before (four columns, every row with threats), and a response with two
  threats for row 0.
\<close>

definition eleven_rows :: page where
  "eleven_rows =
     example_page ''sk-test''
       [input_row '' Login '' ''User login'', input_row ''Upload'' ''File upload'',
        input_row ''Search'' ''Query box'', input_row ''Admin'' ''Admin panel'',
        input_row ''API'' ''REST endpoint'', input_row ''Webhook'' ''Inbound hook'',
        input_row ''Export'' ''CSV export'', input_row ''Import'' ''CSV import'',
        input_row ''Reset'' ''Password reset'', input_row ''Signup'' ''Registration'',
        input_row ''Logout'' ''Session end'']"


section \<open>Properties\<close>

subsection \<open>Strings and snapshots\<close>

lemma show_nat_0: "show_nat 0 = ''0''"
  by (simp add: show_nat.simps digit_def)

lemma snapshot_from_ok:
  "\<forall>tr\<in>set trs. 2 \<le> length tr \<Longrightarrow>
   snapshot_from k trs =
     Inr (map (\<lambda>i. \<lparr>index = k + i, surface = trim (innerText (trs ! i ! 0)),
                     description = trim (innerText (trs ! i ! 1))\<rparr>) [0..<length trs])"
proof (induction trs arbitrary: k)
  case Nil
  then show ?case by simp
next
  case (Cons tr trs)
  have len: "2 \<le> length tr" using Cons.prems by simp
  have rest: "\<forall>tr\<in>set trs. 2 \<le> length tr" using Cons.prems by simp
  have split: "[0..<Suc (length trs)] = 0 # map Suc [0..<length trs]"
    by (simp add: upt_conv_Cons map_Suc_upt del: upt_Suc)
  show ?case
    using len by (auto simp: Cons.IH [OF rest] snap_row_def split o_def simp del: upt_Suc)
qed

lemma trim_decomp:
  "\<exists>a b. s = a @ trim s @ b \<and> (\<forall>c\<in>set a. is_ws c) \<and> (\<forall>c\<in>set b. is_ws c)"
proof -
  let ?a = "takeWhile is_ws s"
  let ?m = "dropWhile is_ws s"
  let ?b = "rev (takeWhile is_ws (rev ?m))"
  have "rev ?m = takeWhile is_ws (rev ?m) @ dropWhile is_ws (rev ?m)" by simp
  then have "?m = trim s @ ?b"
    unfolding trim_def by (metis rev_append rev_rev_ident)
  then have "s = ?a @ trim s @ ?b" by (metis takeWhile_dropWhile_id)
  moreover have "\<forall>c\<in>set ?a. is_ws c" by (auto dest: set_takeWhileD)
  moreover have "\<forall>c\<in>set ?b. is_ws c" by (auto dest: set_takeWhileD)
  ultimately show ?thesis by blast
qed

lemma trim_ends:
  "trim s = [] \<or> (\<not> is_ws (hd (trim s)) \<and> \<not> is_ws (last (trim s)))"
proof (cases "trim s = []")
  case True
  then show ?thesis by simp
next
  case False
  let ?m = "dropWhile is_ws s"
  let ?r = "dropWhile is_ws (rev ?m)"
  have r: "?r \<noteq> []" using False by (simp add: trim_def)
  then have l: "\<not> is_ws (hd ?r)" by (rule hd_dropWhile)
  have "last (trim s) = hd ?r" using r by (simp add: trim_def last_rev)
  with l have last_ok: "\<not> is_ws (last (trim s))" by simp
  have m: "?m \<noteq> []" using r by (cases "?m = []") simp_all
  then have hm: "\<not> is_ws (hd ?m)" by (rule hd_dropWhile)
  obtain b where b: "?m = trim s @ b"
  proof -
    have "rev ?m = takeWhile is_ws (rev ?m) @ ?r" by simp
    then have "?m = trim s @ rev (takeWhile is_ws (rev ?m))"
      unfolding trim_def by (metis rev_append rev_rev_ident)
    then show ?thesis using that by blast
  qed
  have "hd (trim s) = hd ?m" using b False by (metis hd_append2)
  with hm last_ok False show ?thesis by simp
qed

lemma trim_all_ws:
  assumes "\<forall>c\<in>set s. is_ws c"
  shows "trim s = []"
proof -
  have e: "dropWhile is_ws s = []" using assms by (simp add: dropWhile_eq_Nil_conv)
  show ?thesis unfolding trim_def e by simp
qed

subsection \<open>Appending rows\<close>

lemma add_row_fields:
  "inputs (add_row p) = inputs p" "thead (add_row p) = thead p"
  "errorDiv (add_row p) = errorDiv p"
  by (simp_all add: add_row_def Let_def)

lemma add_row_tbody: "tbody (add_row p) = tbody p @ [blank_row p]"
  by (simp add: add_row_def blank_row_def appendCell_def Let_def)

lemma add_row_funpow_thead: "thead ((add_row ^^ n) p) = thead p"
  by (induction n) (simp_all add: add_row_fields)

lemma add_row_funpow_tbody: "tbody ((add_row ^^ n) p) = tbody p @ replicate n (blank_row p)"
proof (induction n)
  case 0
  then show ?case by simp
next
  case (Suc n)
  have "blank_row ((add_row ^^ n) p) = blank_row p"
    by (simp add: blank_row_def add_row_funpow_thead)
  then show ?case
    by (simp add: add_row_tbody Suc.IH replicate_append_same)
qed

lemma blank_row_props:
  "length (blank_row p) = (if length (thead p) > 2 then 4 else 2)"
  "\<forall>c\<in>set (blank_row p). innerText c = []"
  "2 \<le> length (blank_row p)"
  "innerText (blank_row p ! 0) = []" "innerText (blank_row p ! Suc 0) = []"
  by (simp_all add: blank_row_def new_cell_def)

lemma trim_Nil: "trim [] = []"
  by (simp add: trim_def)

text \<open>
  Claim C7. Starting from a page whose table body is empty, \<open>n\<close> clicks on the add-row
  button leave exactly \<open>n\<close> rows; every one of them consists of empty cells only (two
  cells, or four when the header has more than two), so its surface, its description
  and its threat cells are empty; and the snapshot numbers the rows \<open>0, ..., n - 1\<close>
  by position.
\<close>

theorem C7_add_row_sequence:
  assumes "tbody p = []"
  shows "length (tbody ((add_row ^^ n) p)) = n \<and>
         (\<forall>tr\<in>set (tbody ((add_row ^^ n) p)).
            length tr = (if length (thead p) > 2 then 4 else 2) \<and>
            (\<forall>c\<in>set tr. innerText c = [])) \<and>
         snapshot (tbody ((add_row ^^ n) p)) =
           Inr (map (\<lambda>i. \<lparr>index = i, surface = [], description = []\<rparr>) [0..<n])"
proof -
  have rows: "tbody ((add_row ^^ n) p) = replicate n (blank_row p)"
    using assms by (simp add: add_row_funpow_tbody)
  have count: "length (tbody ((add_row ^^ n) p)) = n"
    by (simp add: rows)
  have blank: "\<forall>tr\<in>set (tbody ((add_row ^^ n) p)).
            length tr = (if length (thead p) > 2 then 4 else 2) \<and>
            (\<forall>c\<in>set tr. innerText c = [])"
    unfolding rows using blank_row_props(1,2) [of p] by simp
  have wide: "\<forall>tr\<in>set (replicate n (blank_row p)). 2 \<le> length tr"
    using blank_row_props(3) [of p] by simp
  have snap: "snapshot (tbody ((add_row ^^ n) p)) =
           Inr (map (\<lambda>i. \<lparr>index = i, surface = [], description = []\<rparr>) [0..<n])"
    unfolding rows snapshot_def snapshot_from_ok [OF wide]
    by (simp add: blank_row_props trim_Nil)
  from count blank snap show ?thesis by blast
qed

theorem C7_add_row_sequence_witness:
  "tbody (example_page ''k'' []) = [] \<and>
   length (tbody ((add_row ^^ 3) (example_page ''k'' []))) = 3 \<and>
   snapshot (tbody ((add_row ^^ 3) (example_page ''k'' []))) =
     Inr [\<lparr>index = 0, surface = [], description = []\<rparr>,
          \<lparr>index = 1, surface = [], description = []\<rparr>,
          \<lparr>index = 2, surface = [], description = []\<rparr>]"
proof -
  have e: "tbody (example_page ''k'' []) = []" by (simp add: example_page_def)
  have u: "[0..<3] = [0, 1, 2]" by (simp add: upt_conv_Cons)
  show ?thesis using e C7_add_row_sequence [OF e, of 3] by (simp add: u)
qed

subsection \<open>The credential check\<close>

text \<open>
  Claim C3. When the key field holds the empty string, the submit handler shows
  \<^verbatim>\<open>API key required.\<close>, issues no request and returns; apart from the error region
  the page, and so every row and the header, is what it was, whatever the network
  would have answered.
\<close>

theorem C3_missing_credential:
  assumes "map_of (inputs p) ''api-key'' = Some []"
  shows "submit JSON_parse res p =
           \<lparr>final = p\<lparr>errorDiv := Text ''API key required.''\<rparr>, requests = [],
            unhandled = None\<rparr>"
  using assms by (simp add: submit_def Let_def trim_Nil)

theorem C3_missing_credential_witness:
  "map_of (inputs (example_page [] [input_row ''Login'' ''User login''])) ''api-key'' = Some [] \<and>
   submit (\<lambda>s. None) (Resolved True Null) (example_page [] [input_row ''Login'' ''User login'']) =
     \<lparr>final = (example_page [] [input_row ''Login'' ''User login''])
               \<lparr>errorDiv := Text ''API key required.''\<rparr>,
      requests = [], unhandled = None\<rparr>"
proof -
  have k: "map_of (inputs (example_page [] [input_row ''Login'' ''User login''])) ''api-key'' = Some []"
    by (simp add: example_page_def)
  show ?thesis using k C3_missing_credential [OF k] by simp
qed

subsection \<open>Trimming, the prompt and the request\<close>

lemma trimmed_of_trim: "trimmed_of s (trim s)"
  unfolding trimmed_of_def using trim_decomp [of s] trim_ends [of s] by blast

lemma snapshot_from_wide:
  "snapshot_from k trs = Inr rows \<Longrightarrow> \<forall>tr\<in>set trs. 2 \<le> length tr"
proof (induction trs arbitrary: k rows)
  case Nil
  then show ?case by simp
next
  case (Cons tr trs)
  from Cons.prems obtain r rs where r: "snap_row k tr = Inr r"
    and rs: "snapshot_from (Suc k) trs = Inr rs"
    by (auto split: sum.splits)
  from r have "2 \<le> length tr" by (auto simp: snap_row_def split: if_splits)
  with Cons.IH [OF rs] show ?case by simp
qed

lemma snapshot_Inr:
  assumes "snapshot trs = Inr rows"
  shows "rows = map (\<lambda>i. \<lparr>index = i, surface = trim (innerText (trs ! i ! 0)),
                     description = trim (innerText (trs ! i ! 1))\<rparr>) [0..<length trs]"
proof -
  have "\<forall>tr\<in>set trs. 2 \<le> length tr"
    using assms snapshot_from_wide unfolding snapshot_def by blast
  from snapshot_from_ok [OF this, of 0] assms show ?thesis
    by (simp add: snapshot_def)
qed

lemma submit_requests:
  assumes "map_of (inputs p) ''api-key'' = Some k" and "trim k \<noteq> []"
    and "snapshot (tbody p) = Inr rows"
  shows "requests (submit JSON_parse res p) = [build_request (trim k) (prompt rows)]"
  using assms by (simp add: submit_def Let_def split: prod.splits option.splits)

text \<open>
  Claim C9. The key is trimmed before it is tested: a key field that holds white space
  only is rejected like an empty one, with \<^verbatim>\<open>API key required.\<close> and without a
  request. And whenever the snapshot of the body rows is taken, it has one entry per
  row whose surface and description are the texts of the row's first two cells with
  the white space at both ends removed; the prompt of the request is built from these
  entries, and the key it carries is the trimmed one.
\<close>

theorem C9_trimmed_inputs:
  assumes key: "map_of (inputs p) ''api-key'' = Some k"
  shows "((\<forall>c\<in>set k. is_ws c) \<longrightarrow>
            submit JSON_parse res p =
              \<lparr>final = p\<lparr>errorDiv := Text ''API key required.''\<rparr>, requests = [],
               unhandled = None\<rparr>) \<and>
         (\<forall>rows. snapshot (tbody p) = Inr rows \<longrightarrow>
            length rows = length (tbody p) \<and>
            (\<forall>i<length rows.
               trimmed_of (innerText (tbody p ! i ! 0)) (surface (rows ! i)) \<and>
               trimmed_of (innerText (tbody p ! i ! 1)) (description (rows ! i))) \<and>
            (trim k \<noteq> [] \<longrightarrow>
               requests (submit JSON_parse res p) = [build_request (trim k) (prompt rows)]))"
proof -
  have blank: "(\<forall>c\<in>set k. is_ws c) \<longrightarrow>
            submit JSON_parse res p =
              \<lparr>final = p\<lparr>errorDiv := Text ''API key required.''\<rparr>, requests = [],
               unhandled = None\<rparr>"
    using key by (simp add: submit_def Let_def trim_all_ws)
  have snap: "length rows = length (tbody p) \<and>
            (\<forall>i<length rows.
               trimmed_of (innerText (tbody p ! i ! 0)) (surface (rows ! i)) \<and>
               trimmed_of (innerText (tbody p ! i ! 1)) (description (rows ! i))) \<and>
            (trim k \<noteq> [] \<longrightarrow>
               requests (submit JSON_parse res p) = [build_request (trim k) (prompt rows)])"
    if s: "snapshot (tbody p) = Inr rows" for rows
  proof -
    note eq = snapshot_Inr [OF s]
    have len: "length rows = length (tbody p)" by (simp add: eq)
    have cells: "\<forall>i<length rows.
               trimmed_of (innerText (tbody p ! i ! 0)) (surface (rows ! i)) \<and>
               trimmed_of (innerText (tbody p ! i ! 1)) (description (rows ! i))"
      unfolding len by (simp add: eq trimmed_of_trim)
    have req: "trim k \<noteq> [] \<longrightarrow>
               requests (submit JSON_parse res p) = [build_request (trim k) (prompt rows)]"
      using submit_requests [OF key _ s] by blast
    from len cells req show ?thesis by blast
  qed
  from blank snap show ?thesis by blast
qed

theorem C9_trimmed_inputs_witness:
  "map_of (inputs (example_page ''  '' [input_row '' Login '' ''User login''])) ''api-key''
     = Some ''  '' \<and>
   list_all is_ws ''  '' \<and>
   submit (\<lambda>s. None) FetchRejected (example_page ''  '' [input_row '' Login '' ''User login'']) =
     \<lparr>final = (example_page ''  '' [input_row '' Login '' ''User login''])
                \<lparr>errorDiv := Text ''API key required.''\<rparr>,
      requests = [], unhandled = None\<rparr> \<and>
   snapshot (tbody (example_page ''  '' [input_row '' Login '' ''User login''])) =
     Inr [\<lparr>index = 0, surface = ''Login'', description = ''User login''\<rparr>] \<and>
   trimmed_of '' Login '' ''Login''"
proof -
  let ?p = "example_page ''  '' [input_row '' Login '' ''User login'']"
  have k: "map_of (inputs ?p) ''api-key'' = Some ''  ''"
    by (simp add: example_page_def)
  have w: "\<forall>c\<in>set ''  ''. is_ws c" by (simp add: is_ws_def)
  have s: "snapshot (tbody ?p) =
     Inr [\<lparr>index = 0, surface = ''Login'', description = ''User login''\<rparr>]"
    by (simp add: example_page_def input_row_def snapshot_def snap_row_def trim_def is_ws_def)
  have c: "innerText (tbody ?p ! 0 ! 0) = '' Login ''"
    by (simp add: example_page_def input_row_def)
  note t = C9_trimmed_inputs [OF k, of "\<lambda>s. None" FetchRejected]
  have w': "list_all is_ws ''  ''" by (simp add: is_ws_def)
  from t w s c w' show ?thesis using k by simp
qed

lemma digit_char:
  assumes "d < 10"
  shows "digit d \<in> set ''0123456789''" "of_char (digit d) = (48::nat) + d"
proof -
  from assms have "d \<in> {0, 1, 2, 3, 4, 5, 6, 7, 8, 9}" by auto
  then show "digit d \<in> set ''0123456789''" "of_char (digit d) = (48::nat) + d"
    by (auto simp: digit_def)
qed

lemma show_nat_reads: "reads_as (show_nat n) n"
proof (induction n rule: show_nat.induct)
  case (1 n)
  show ?case
  proof (cases "n < 10")
    case True
    then have s: "show_nat n = [digit n]" by (simp add: show_nat.simps)
    from digit_char [OF True] show ?thesis
      unfolding s reads_as_def by auto
  next
    case False
    let ?q = "show_nat (n div 10)"
    have s: "show_nat n = ?q @ [digit (n mod 10)]"
      using False by (subst show_nat.simps) simp
    from 1 False have ih: "reads_as ?q (n div 10)" by simp
    have d: "n mod 10 < 10" by simp
    from ih have ne: "?q \<noteq> []" and dig: "list_all (\<lambda>c. c \<in> set ''0123456789'') ?q"
      and lead: "hd ?q = CHR ''0'' \<longrightarrow> ?q = ''0''"
      and val: "foldl (\<lambda>a c. 10 * a + (of_char c - 48)) 0 ?q = n div 10"
      by (simp_all add: reads_as_def)
    have nolead: "hd ?q \<noteq> CHR ''0''"
    proof
      assume "hd ?q = CHR ''0''"
      with lead have "?q = ''0''" by simp
      with val have "n div 10 = 0" by simp
      with False show False by simp
    qed
    have first: "hd (show_nat n) = hd ?q" using ne by (simp add: s)
    have total: "foldl (\<lambda>a c. 10 * a + (of_char c - 48)) 0 (show_nat n) = n"
      using val digit_char(2) [OF d] by (simp add: s)
    show ?thesis
      unfolding reads_as_def using ne dig digit_char(1) [OF d] nolead first total
      by (simp add: s)
  qed
qed

lemma js_join_lines:
  "js_join [c] xs @ [c] = (if xs = [] then [c] else concat (map (\<lambda>x. x @ [c]) xs))"
  by (induction "[c]" xs rule: js_join.induct) simp_all

lemma surface_lines:
  assumes "snapshot trs = Inr rows"
  shows "map surface_line rows =
           map (\<lambda>i. ''#'' @ show_nat i @ '': '' @ trim (innerText (trs ! i ! 0)) @ '' - '' @
                     trim (innerText (trs ! i ! 1))) [0..<length trs]"
  by (simp add: snapshot_Inr [OF assms] surface_line_def o_def)

lemma prompt_lines:
  \<open>prompt rows =
     concat (map (\<lambda>l. l @ [CHR 0x0A])
       ([[],
                 ''You are a threat modeling assistant. For each attack surface below, identify applicable threat categories from this list and provide a brief description. Omit categories that do not apply. Respond with JSON only in the form:'',
                 ''['',
                 ''  {"index":0,"threats":[{"type":"<category_id>","description":"<text>"}]}'',
                 '']'',
                 [],
                 ''Threat Categories:'',
                 ''information_leakage: Exposure of sensitive data via the surface.'',
                 ''data_integrity_violation: Unauthorized modification/destruction of data.'',
                 ''control_plane_subversion: Unauthorized modification/execution on the control plane.'',
                 ''denial_of_service: Degradation or loss of availability.'',
                 ''illegitimate_use: Abuse/misuse of resources beyond intended purpose.'',
                 ''entity_spoofing: Masquerading as another principal/service.'',
                 ''forgery: Fabricating messages/requests accepted as if from a trusted source.'',
                 ''bypassing_control: Circumventing security controls (filtering, validation, authN/Z gates).'',
                 ''authorization_violation: Access beyond assigned permissions.'',
                 ''trojan: Malicious/compromised components introduced via supply chain or artifact.'',
                 ''guessing: Ability to deduce or predict sensitive values (e.g., keys, tokens, identifiers).'',
                 ''repudiation: Denying actions/transactions due to insufficient auditability or tamper-proof logging.'',
                 [],
                 ''Attack Surfaces:''] @
        (if rows = [] then [[]] else map surface_line rows)))\<close>
proof -
  have tail: "js_join nl (map surface_line rows) @ nl =
              concat (map (\<lambda>l. l @ [CHR 0x0A])
                (if rows = [] then [[]] else map surface_line rows))"
    unfolding nl_def by (simp add: js_join_lines)
  have head: \<open>prompt_head @ js_join nl (map category_line categories) @ nl @ nl @
               ''Attack Surfaces:'' @ nl =
             concat (map (\<lambda>l. l @ [CHR 0x0A])
               [[],
                 ''You are a threat modeling assistant. For each attack surface below, identify applicable threat categories from this list and provide a brief description. Omit categories that do not apply. Respond with JSON only in the form:'',
                 ''['',
                 ''  {"index":0,"threats":[{"type":"<category_id>","description":"<text>"}]}'',
                 '']'',
                 [],
                 ''Threat Categories:'',
                 ''information_leakage: Exposure of sensitive data via the surface.'',
                 ''data_integrity_violation: Unauthorized modification/destruction of data.'',
                 ''control_plane_subversion: Unauthorized modification/execution on the control plane.'',
                 ''denial_of_service: Degradation or loss of availability.'',
                 ''illegitimate_use: Abuse/misuse of resources beyond intended purpose.'',
                 ''entity_spoofing: Masquerading as another principal/service.'',
                 ''forgery: Fabricating messages/requests accepted as if from a trusted source.'',
                 ''bypassing_control: Circumventing security controls (filtering, validation, authN/Z gates).'',
                 ''authorization_violation: Access beyond assigned permissions.'',
                 ''trojan: Malicious/compromised components introduced via supply chain or artifact.'',
                 ''guessing: Ability to deduce or predict sensitive values (e.g., keys, tokens, identifiers).'',
                 ''repudiation: Denying actions/transactions due to insufficient auditability or tamper-proof logging.'',
                 [],
                 ''Attack Surfaces:''])\<close>
    by (simp add: prompt_head_def categories_def category_line_def nl_def)
  have split: "prompt rows =
          (prompt_head @ js_join nl (map category_line categories) @ nl @ nl @
           ''Attack Surfaces:'' @ nl) @ (js_join nl (map surface_line rows) @ nl)"
    by (simp only: prompt_def append_assoc)
  show ?thesis
    unfolding split head tail by (simp only: map_append concat_append)
qed

text \<open>
  Claim C5. The taxonomy lists the twelve categories in the order of their
  declaration, and the prompt sent with the request is the following text, every line
  ended by a line feed: an empty line, the instruction, the three lines of the example,
  an empty line, \<^verbatim>\<open>Threat Categories:\<close>, the twelve lines \<^verbatim>\<open>id: description\<close> in that
  order, an empty line, \<^verbatim>\<open>Attack Surfaces:\<close>, and one line
  \<^verbatim>\<open>#i: surface - description\<close> per body row, for \<open>i\<close> from 0 upwards in the order of
  the rows, with the trimmed texts of the row's first two cells and \<open>i\<close> written in
  decimal (one empty line when there is no row). The hypotheses say that the handler
  gets as far as the request: there is a key, and every row has its two input cells.
\<close>

theorem C5_prompt_contents:
  assumes "map_of (inputs p) ''api-key'' = Some k" and "trim k \<noteq> []"
    and "snapshot (tbody p) = Inr rows"
  shows \<open>map cat_id categories =
           [''information_leakage'', ''data_integrity_violation'', ''control_plane_subversion'',
            ''denial_of_service'', ''illegitimate_use'', ''entity_spoofing'', ''forgery'',
            ''bypassing_control'', ''authorization_violation'', ''trojan'', ''guessing'',
            ''repudiation''] \<and>
         (\<forall>i. reads_as (show_nat i) i) \<and>
         (\<exists>req. requests (submit JSON_parse res p) = [req] \<and>
            get_prop (body req) ''input'' =
              Inr (Str (concat (map (\<lambda>l. l @ [CHR 0x0A])
                ([[],
                 ''You are a threat modeling assistant. For each attack surface below, identify applicable threat categories from this list and provide a brief description. Omit categories that do not apply. Respond with JSON only in the form:'',
                 ''['',
                 ''  {"index":0,"threats":[{"type":"<category_id>","description":"<text>"}]}'',
                 '']'',
                 [],
                 ''Threat Categories:'',
                 ''information_leakage: Exposure of sensitive data via the surface.'',
                 ''data_integrity_violation: Unauthorized modification/destruction of data.'',
                 ''control_plane_subversion: Unauthorized modification/execution on the control plane.'',
                 ''denial_of_service: Degradation or loss of availability.'',
                 ''illegitimate_use: Abuse/misuse of resources beyond intended purpose.'',
                 ''entity_spoofing: Masquerading as another principal/service.'',
                 ''forgery: Fabricating messages/requests accepted as if from a trusted source.'',
                 ''bypassing_control: Circumventing security controls (filtering, validation, authN/Z gates).'',
                 ''authorization_violation: Access beyond assigned permissions.'',
                 ''trojan: Malicious/compromised components introduced via supply chain or artifact.'',
                 ''guessing: Ability to deduce or predict sensitive values (e.g., keys, tokens, identifiers).'',
                 ''repudiation: Denying actions/transactions due to insufficient auditability or tamper-proof logging.'',
                 [],
                 ''Attack Surfaces:''] @
                 (if tbody p = [] then [[]]
                  else map (\<lambda>i. ''#'' @ show_nat i @ '': '' @ trim (innerText (tbody p ! i ! 0)) @
                            '' - '' @ trim (innerText (tbody p ! i ! 1)))
                         [0..<length (tbody p)]))))))\<close>
proof -
  have ids: "map cat_id categories =
           [''information_leakage'', ''data_integrity_violation'', ''control_plane_subversion'',
            ''denial_of_service'', ''illegitimate_use'', ''entity_spoofing'', ''forgery'',
            ''bypassing_control'', ''authorization_violation'', ''trojan'', ''guessing'',
            ''repudiation'']"
    by (simp add: categories_def)
  have dec: "\<forall>i. reads_as (show_nat i) i" by (simp add: show_nat_reads)
  have req: "requests (submit JSON_parse res p) = [build_request (trim k) (prompt rows)]"
    by (rule submit_requests [OF assms])
  have inp: "get_prop (body (build_request (trim k) (prompt rows))) ''input'' =
               Inr (Str (prompt rows))"
    by (simp add: build_request_def)
  have len: "length rows = length (tbody p)" by (simp add: snapshot_Inr [OF assms(3)])
  then have empty: "rows = [] \<longleftrightarrow> tbody p = []" by (metis length_0_conv)
  note lines = prompt_lines [of rows, unfolded surface_lines [OF assms(3)] empty]
  from ids dec req inp lines show ?thesis by simp
qed

theorem C5_prompt_contents_witness:
  \<open>map_of (inputs eleven_rows) ''api-key'' = Some ''sk-test'' \<and>
   trim ''sk-test'' \<noteq> [] \<and>
   snapshot (tbody eleven_rows) =
     Inr [\<lparr>index = 0, surface = ''Login'', description = ''User login''\<rparr>,
          \<lparr>index = 1, surface = ''Upload'', description = ''File upload''\<rparr>,
          \<lparr>index = 2, surface = ''Search'', description = ''Query box''\<rparr>,
          \<lparr>index = 3, surface = ''Admin'', description = ''Admin panel''\<rparr>,
          \<lparr>index = 4, surface = ''API'', description = ''REST endpoint''\<rparr>,
          \<lparr>index = 5, surface = ''Webhook'', description = ''Inbound hook''\<rparr>,
          \<lparr>index = 6, surface = ''Export'', description = ''CSV export''\<rparr>,
          \<lparr>index = 7, surface = ''Import'', description = ''CSV import''\<rparr>,
          \<lparr>index = 8, surface = ''Reset'', description = ''Password reset''\<rparr>,
          \<lparr>index = 9, surface = ''Signup'', description = ''Registration''\<rparr>,
          \<lparr>index = 10, surface = ''Logout'', description = ''Session end''\<rparr>] \<and>
   reads_as (show_nat 10) 10 \<and>
   (\<exists>req. requests (submit (\<lambda>s. None) FetchRejected eleven_rows) = [req] \<and>
      get_prop (body req) ''input'' =
        Inr (Str (concat (map (\<lambda>l. l @ [CHR 0x0A])
            [[],
             ''You are a threat modeling assistant. For each attack surface below, identify applicable threat categories from this list and provide a brief description. Omit categories that do not apply. Respond with JSON only in the form:'',
             ''['',
             ''  {"index":0,"threats":[{"type":"<category_id>","description":"<text>"}]}'',
             '']'',
             [],
             ''Threat Categories:'',
             ''information_leakage: Exposure of sensitive data via the surface.'',
             ''data_integrity_violation: Unauthorized modification/destruction of data.'',
             ''control_plane_subversion: Unauthorized modification/execution on the control plane.'',
             ''denial_of_service: Degradation or loss of availability.'',
             ''illegitimate_use: Abuse/misuse of resources beyond intended purpose.'',
             ''entity_spoofing: Masquerading as another principal/service.'',
             ''forgery: Fabricating messages/requests accepted as if from a trusted source.'',
             ''bypassing_control: Circumventing security controls (filtering, validation, authN/Z gates).'',
             ''authorization_violation: Access beyond assigned permissions.'',
             ''trojan: Malicious/compromised components introduced via supply chain or artifact.'',
             ''guessing: Ability to deduce or predict sensitive values (e.g., keys, tokens, identifiers).'',
             ''repudiation: Denying actions/transactions due to insufficient auditability or tamper-proof logging.'',
             [],
             ''Attack Surfaces:'',
             ''#0: Login - User login'',
             ''#1: Upload - File upload'',
             ''#2: Search - Query box'',
             ''#3: Admin - Admin panel'',
             ''#4: API - REST endpoint'',
             ''#5: Webhook - Inbound hook'',
             ''#6: Export - CSV export'',
             ''#7: Import - CSV import'',
             ''#8: Reset - Password reset'',
             ''#9: Signup - Registration'',
             ''#10: Logout - Session end'']))))\<close>
proof -
  have k: "map_of (inputs eleven_rows) ''api-key'' = Some ''sk-test''" by code_simp
  have t: "trim ''sk-test'' \<noteq> []" by code_simp
  have s: "snapshot (tbody eleven_rows) =
     Inr [\<lparr>index = 0, surface = ''Login'', description = ''User login''\<rparr>,
          \<lparr>index = 1, surface = ''Upload'', description = ''File upload''\<rparr>,
          \<lparr>index = 2, surface = ''Search'', description = ''Query box''\<rparr>,
          \<lparr>index = 3, surface = ''Admin'', description = ''Admin panel''\<rparr>,
          \<lparr>index = 4, surface = ''API'', description = ''REST endpoint''\<rparr>,
          \<lparr>index = 5, surface = ''Webhook'', description = ''Inbound hook''\<rparr>,
          \<lparr>index = 6, surface = ''Export'', description = ''CSV export''\<rparr>,
          \<lparr>index = 7, surface = ''Import'', description = ''CSV import''\<rparr>,
          \<lparr>index = 8, surface = ''Reset'', description = ''Password reset''\<rparr>,
          \<lparr>index = 9, surface = ''Signup'', description = ''Registration''\<rparr>,
          \<lparr>index = 10, surface = ''Logout'', description = ''Session end''\<rparr>]"
    by code_simp
  have rows: "(if tbody eleven_rows = [] then [[]]
               else map (\<lambda>i. ''#'' @ show_nat i @ '': '' @ trim (innerText (tbody eleven_rows ! i ! 0)) @
                            '' - '' @ trim (innerText (tbody eleven_rows ! i ! 1)))
                      [0..<length (tbody eleven_rows)]) =
       [''#0: Login - User login'',
        ''#1: Upload - File upload'',
        ''#2: Search - Query box'',
        ''#3: Admin - Admin panel'',
        ''#4: API - REST endpoint'',
        ''#5: Webhook - Inbound hook'',
        ''#6: Export - CSV export'',
        ''#7: Import - CSV import'',
        ''#8: Reset - Password reset'',
        ''#9: Signup - Registration'',
        ''#10: Logout - Session end'']"
    by code_simp
  note th = C5_prompt_contents [OF k t s, of "\<lambda>s. None" FetchRejected, unfolded rows]
  from th have r: "reads_as (show_nat 10) 10" by blast
  from th have p: \<open>\<exists>req. requests (submit (\<lambda>s. None) FetchRejected eleven_rows) = [req] \<and>
      get_prop (body req) ''input'' =
        Inr (Str (concat (map (\<lambda>l. l @ [CHR 0x0A])
            [[],
             ''You are a threat modeling assistant. For each attack surface below, identify applicable threat categories from this list and provide a brief description. Omit categories that do not apply. Respond with JSON only in the form:'',
             ''['',
             ''  {"index":0,"threats":[{"type":"<category_id>","description":"<text>"}]}'',
             '']'',
             [],
             ''Threat Categories:'',
             ''information_leakage: Exposure of sensitive data via the surface.'',
             ''data_integrity_violation: Unauthorized modification/destruction of data.'',
             ''control_plane_subversion: Unauthorized modification/execution on the control plane.'',
             ''denial_of_service: Degradation or loss of availability.'',
             ''illegitimate_use: Abuse/misuse of resources beyond intended purpose.'',
             ''entity_spoofing: Masquerading as another principal/service.'',
             ''forgery: Fabricating messages/requests accepted as if from a trusted source.'',
             ''bypassing_control: Circumventing security controls (filtering, validation, authN/Z gates).'',
             ''authorization_violation: Access beyond assigned permissions.'',
             ''trojan: Malicious/compromised components introduced via supply chain or artifact.'',
             ''guessing: Ability to deduce or predict sensitive values (e.g., keys, tokens, identifiers).'',
             ''repudiation: Denying actions/transactions due to insufficient auditability or tamper-proof logging.'',
             [],
             ''Attack Surfaces:'',
             ''#0: Login - User login'',
             ''#1: Upload - File upload'',
             ''#2: Search - Query box'',
             ''#3: Admin - Admin panel'',
             ''#4: API - REST endpoint'',
             ''#5: Webhook - Inbound hook'',
             ''#6: Export - CSV export'',
             ''#7: Import - CSV import'',
             ''#8: Reset - Password reset'',
             ''#9: Signup - Registration'',
             ''#10: Logout - Session end''])))\<close>
    by simp
  from k t s r p show ?thesis by blast
qed

text \<open>
  Claim C4, as the script has it. The handler has no parameter or field for another
  endpoint. A submission that passes the credential check and whose rows all have
  their two input cells issues exactly one request, a POST to the one address written
  in the script, whatever else the page holds and whatever the network answers.
\<close>

theorem C4_fixed_endpoint:
  assumes "map_of (inputs p) ''api-key'' = Some k" and "trim k \<noteq> []"
    and "snapshot (tbody p) = Inr rows"
  shows "\<exists>req. requests (submit JSON_parse res p) = [req] \<and>
           http_method req = ''POST'' \<and> url req = ''https://api.openai.com/v1/responses''"
  unfolding submit_requests [OF assms] by (simp add: build_request_def)

theorem C4_fixed_endpoint_witness:
  "map_of (inputs override_page) ''api-key'' = Some ''sk-test'' \<and>
   trim ''sk-test'' \<noteq> [] \<and>
   snapshot (tbody override_page) =
     Inr [\<lparr>index = 0, surface = ''Login'', description = ''User login''\<rparr>] \<and>
   (\<exists>req. requests (submit (\<lambda>s. None) FetchRejected override_page) = [req] \<and>
      http_method req = ''POST'' \<and> url req = ''https://api.openai.com/v1/responses'')"
proof -
  have k: "map_of (inputs override_page) ''api-key'' = Some ''sk-test''"
    by (simp add: override_page_def)
  have t: "trim ''sk-test'' \<noteq> []" by (simp add: trim_def is_ws_def)
  have s: "snapshot (tbody override_page) =
     Inr [\<lparr>index = 0, surface = ''Login'', description = ''User login''\<rparr>]"
    by (simp add: override_page_def input_row_def snapshot_def snap_row_def trim_def is_ws_def)
  from C4_fixed_endpoint [OF k t s, of "\<lambda>s. None" FetchRejected] k t s
  show ?thesis by simp
qed

text \<open>
  The claim as written fails: on a page where another endpoint has been supplied in
  a second input field, the one request still goes to the address written in the
  script, not to the supplied one.
\<close>

theorem C4_override_counterexample:
  "map_of (inputs override_page) ''api-endpoint'' =
     Some ''https://llm.labs.blackduck.com/v1/responses'' \<and>
   map url (requests (submit (\<lambda>s. None) (Resolved True Null) override_page)) =
     [''https://api.openai.com/v1/responses''] \<and>
   map url (requests (submit (\<lambda>s. None) (Resolved True Null) override_page)) \<noteq>
     [''https://llm.labs.blackduck.com/v1/responses'']"
proof -
  have k: "map_of (inputs override_page) ''api-key'' = Some ''sk-test''"
    by (simp add: override_page_def)
  have t: "trim ''sk-test'' \<noteq> []" by (simp add: trim_def is_ws_def)
  have s: "snapshot (tbody override_page) =
     Inr [\<lparr>index = 0, surface = ''Login'', description = ''User login''\<rparr>]"
    by (simp add: override_page_def input_row_def snapshot_def snap_row_def trim_def is_ws_def)
  have o: "map_of (inputs override_page) ''api-endpoint'' =
     Some ''https://llm.labs.blackduck.com/v1/responses''"
    by (simp add: override_page_def)
  show ?thesis
    unfolding submit_requests [OF k t s] using o by (simp add: build_request_def)
qed

subsection \<open>Writing a response back\<close>

lemma find_append_cases:
  "find P (xs @ ys) = (case find P xs of None \<Rightarrow> find P ys | Some x \<Rightarrow> Some x)"
  by (induction xs) auto

lemma find_Some_in: "find P xs = Some x \<Longrightarrow> x \<in> set xs"
  by (induction xs) (auto split: if_splits)

lemma to_string_Inl:
  "to_string v = Inl e \<Longrightarrow> e = TypeError"
  "to_strings xs = Inl e \<Longrightarrow> e = TypeError"
  by (induction v and xs arbitrary: e and e rule: to_string_to_strings.induct)
     (auto split: sum.splits option.splits if_splits)

lemma row_index_bound: "row_index n v = Inr (Some i) \<Longrightarrow> i < n"
  by (auto simp: row_index_def find_Some_iff split: sum.splits)


lemma set_text_length [simp]: "length (set_text rows i j s) = length rows"
  by (simp add: set_text_def)

lemma set_text_nth:
  "i' < length rows \<Longrightarrow>
   set_text rows i j s ! i' =
     (if i' = i then (rows ! i)[j := (rows ! i ! j)\<lparr>innerText := s\<rparr>] else rows ! i')"
  by (simp add: set_text_def nth_list_update)

lemma apply_item_None:
  assumes "apply_item rows item = (rows', None)"
  obtains idx i types descs where
    "get_prop item ''index'' = Inr idx" "row_index (length rows) idx = Inr (Some i)"
    "threat_column item ''type'' = Inr types" "threat_column item ''description'' = Inr descs"
    "3 < length (rows ! i)" "rows' = set_text (set_text rows i 2 types) i 3 descs"
  using assms by (auto simp: apply_item_def split: sum.splits option.splits if_splits)

lemma apply_item_rows:
  assumes "apply_item rows item = (rows', None)"
  shows "length rows' = length rows \<and>
         (\<forall>i<length rows.
            (names_row (length rows) item i \<longrightarrow> 3 < length (rows ! i)) \<and>
            rows' ! i = (if names_row (length rows) item i then written (rows ! i) item
                         else rows ! i))"
proof -
  from assms obtain idx k types descs where
    idx: "get_prop item ''index'' = Inr idx" and k: "row_index (length rows) idx = Inr (Some k)" and
    ty: "threat_column item ''type'' = Inr types" and
    de: "threat_column item ''description'' = Inr descs" and
    wide: "3 < length (rows ! k)" and
    r: "rows' = set_text (set_text rows k 2 types) k 3 descs"
    by (rule apply_item_None)
  have kn: "k < length rows" using k by (rule row_index_bound)
  have nm: "names_row (length rows) item i \<longleftrightarrow> i = k" for i
    using idx k by (auto simp: names_row_def)
  have "rows' ! i = (if i = k then written (rows ! i) item else rows ! i)"
    if "i < length rows" for i
    using that wide kn by (simp add: r set_text_nth written_def ty de)
  then show ?thesis using wide by (simp add: r nm)
qed

lemma written_length [simp]: "length (written old item) = length old"
  by (simp add: written_def split: sum.splits)

lemma written_twice:
  "3 < length old \<Longrightarrow> threat_column b ''type'' = Inr t \<Longrightarrow>
   threat_column b ''description'' = Inr d \<Longrightarrow>
   written (written old a) b = written old b"
  by (auto simp: written_def list_update_swap [of 3 2] split: sum.splits)

lemma last_entry_for_Cons:
  "last_entry_for n (item # items) i =
     (case last_entry_for n items i of
        None \<Rightarrow> if names_row n item i then Some item else None
      | Some x \<Rightarrow> Some x)"
  by (simp add: last_entry_for_def find_append_cases split: option.splits)

lemma apply_items_columns:
  assumes "apply_items rows items = (rows', None)" and "x \<in> set items"
  shows "\<exists>t d. threat_column x ''type'' = Inr t \<and> threat_column x ''description'' = Inr d"
  using assms
proof (induction items arbitrary: rows)
  case Nil
  then show ?case by simp
next
  case (Cons item items)
  from Cons.prems(1) obtain rows1 where
    one: "apply_item rows item = (rows1, None)" and
    rest: "apply_items rows1 items = (rows', None)"
    by (auto split: prod.splits option.splits)
  show ?case
  proof (cases "x = item")
    case True
    with one show ?thesis by (auto elim: apply_item_None)
  next
    case False
    with Cons.prems(2) have "x \<in> set items" by simp
    from Cons.IH [OF rest this] show ?thesis .
  qed
qed

lemma apply_items_rows:
  assumes "apply_items rows items = (rows', None)"
  shows "length rows' = length rows \<and>
         (\<forall>i<length rows.
            rows' ! i = (case last_entry_for (length rows) items i of
                           None \<Rightarrow> rows ! i
                         | Some item \<Rightarrow> written (rows ! i) item))"
  using assms
proof (induction items arbitrary: rows)
  case Nil
  then show ?case by (simp add: last_entry_for_def)
next
  case (Cons item items)
  from Cons.prems obtain rows1 where
    one: "apply_item rows item = (rows1, None)" and
    rest: "apply_items rows1 items = (rows', None)"
    by (auto split: prod.splits option.splits)
  note a = apply_item_rows [OF one]
  note b = Cons.IH [OF rest]
  have len: "length rows' = length rows" using a b by simp
  have "rows' ! i = (case last_entry_for (length rows) (item # items) i of
                           None \<Rightarrow> rows ! i
                         | Some x \<Rightarrow> written (rows ! i) x)"
    if i: "i < length rows" for i
  proof (cases "last_entry_for (length rows) items i")
    case None
    then show ?thesis using a b i by (simp add: last_entry_for_Cons)
  next
    case (Some x)
    have xin: "x \<in> set items"
      using Some find_Some_in [of _ "rev items" x] by (simp add: last_entry_for_def)
    from apply_items_columns [OF rest xin] obtain t d where
      cols: "threat_column x ''type'' = Inr t" "threat_column x ''description'' = Inr d"
      by blast
    have l: "last_entry_for (length rows) (item # items) i = Some x"
      using Some by (simp add: last_entry_for_Cons)
    have "rows' ! i = written (rows1 ! i) x" using a b i Some by simp
    also have "\<dots> = written (rows ! i) x"
    proof (cases "names_row (length rows) item i")
      case True
      with a i have "3 < length (rows ! i)" "rows1 ! i = written (rows ! i) item" by simp_all
      then show ?thesis by (simp add: written_twice [OF _ cols])
    next
      case False
      with a i show ?thesis by simp
    qed
    finally show ?thesis by (simp add: l)
  qed
  with len show ?case by blast
qed

lemma get_prop_Inl: "get_prop v k = Inl e \<Longrightarrow> e = TypeError"
  by (cases v) auto

lemma map_props_Inl: "map_props ts k = Inl e \<Longrightarrow> e = TypeError"
  by (induction ts arbitrary: e)
     (auto simp: and_then_def split: sum.splits dest: get_prop_Inl)

lemma join_values_Inl: "join_values sep xs = Inl e \<Longrightarrow> e = TypeError"
  by (auto simp: join_values_def split: sum.splits dest: to_string_Inl)

lemma threat_column_Inl: "threat_column item k = Inl e \<Longrightarrow> e = TypeError"
  by (auto simp: threat_column_def and_then_def split: sum.splits jsval.splits
           dest: get_prop_Inl map_props_Inl join_values_Inl)



lemma set_text_lengths: "map length (set_text rows i j s) = map length rows"
  by (rule nth_equalityI) (simp_all add: set_text_nth)

lemma apply_item_lengths: "apply_item rows item = (rows', e) \<Longrightarrow> map length rows' = map length rows"
  by (auto simp: apply_item_def set_text_lengths split: sum.splits option.splits if_splits)

lemma apply_items_lengths:
  "apply_items rows items = (rows', e) \<Longrightarrow> map length rows' = map length rows"
proof (induction items arbitrary: rows)
  case Nil
  then show ?case by simp
next
  case (Cons item items)
  show ?case
  proof (cases "apply_item rows item")
    case (Pair rows1 e1)
    note one = apply_item_lengths [OF Pair]
    show ?thesis
    proof (cases e1)
      case None
      with Cons.prems Pair have "apply_items rows1 items = (rows', e)" by simp
      from Cons.IH [OF this] one show ?thesis by simp
    next
      case (Some x)
      with Cons.prems Pair one show ?thesis by simp
    qed
  qed
qed

lemma apply_items_append:
  "apply_items rows (xs @ ys) =
     (case apply_items rows xs of
        (rows', Some e) \<Rightarrow> (rows', Some e)
      | (rows', None) \<Rightarrow> apply_items rows' ys)"
  by (induction xs arbitrary: rows) (auto split: prod.splits option.splits)

lemma insert_cells_wide:
  "\<forall>tr\<in>set trs. 2 \<le> length tr \<Longrightarrow>
   insert_cells trs = (map (\<lambda>tr. take 2 tr @ [new_cell, new_cell] @ drop 2 tr) trs, None)"
  by (induction trs) (auto simp: insertCell_def min_def)

lemma add_columns_grid:
  assumes "grid_ok p"
  shows "add_columns p =
           (if length (thead p) = 2
            then (p\<lparr>thead := thead p @ threat_head,
                    tbody := map (\<lambda>tr. tr @ [new_cell, new_cell]) (tbody p)\<rparr>, None)
            else (p, None))"
proof (cases "length (thead p) = 2")
  case True
  with assms have two: "\<forall>tr\<in>set (tbody p). length tr = 2" by (simp add: grid_ok_def)
  then have wide: "\<forall>tr\<in>set (tbody p). 2 \<le> length tr" by simp
  have "map (\<lambda>tr. take 2 tr @ [new_cell, new_cell] @ drop 2 tr) (tbody p) =
        map (\<lambda>tr. tr @ [new_cell, new_cell]) (tbody p)"
    using two by simp
  with True show ?thesis
    by (simp add: add_columns_def Let_def insert_cells_wide [OF wide] threat_head_def)
next
  case False
  then show ?thesis by (simp add: add_columns_def)
qed

lemma grid_ok_snapshot:
  assumes "grid_ok p"
  shows "\<exists>rows. snapshot (tbody p) = Inr rows"
proof -
  from assms have "\<forall>tr\<in>set (tbody p). 2 \<le> length tr" by (auto simp: grid_ok_def)
  from snapshot_from_ok [OF this, of 0] show ?thesis by (simp add: snapshot_def)
qed

lemma submit_reached:
  assumes "map_of (inputs p) ''api-key'' = Some k" and "trim k \<noteq> []"
    and "snapshot (tbody p) = Inr rows"
  shows "submit JSON_parse res p =
           (case try_block JSON_parse res (p\<lparr>errorDiv := Text []\<rparr>) of
              (p', None) \<Rightarrow>
                \<lparr>final = p', requests = [build_request (trim k) (prompt rows)], unhandled = None\<rparr>
            | (p', Some err) \<Rightarrow>
                \<lparr>final = p'\<lparr>errorDiv := message err\<rparr>,
                 requests = [build_request (trim k) (prompt rows)], unhandled = None\<rparr>)"
  using assms by (simp add: submit_def Let_def)

lemma try_block_parsed:
  assumes "parse_payload JSON_parse data = Inr parsed"
  shows "try_block JSON_parse (Resolved True data) p = apply_response p parsed"
  using assms by (simp add: try_block_def)

lemma apply_response_grid:
  assumes "grid_ok p"
  shows "apply_response p (Arr items) =
           (let p1 = (if length (thead p) = 2
                      then p\<lparr>thead := thead p @ threat_head,
                             tbody := map (\<lambda>tr. tr @ [new_cell, new_cell]) (tbody p)\<rparr>
                      else p)
            in case apply_items (tbody p1) items of (rows, e) \<Rightarrow> (p1\<lparr>tbody := rows\<rparr>, e))"
  by (simp add: apply_response_def add_columns_grid [OF assms] Let_def)

lemma grid_ok_errorDiv [simp]: "grid_ok (p\<lparr>errorDiv := d\<rparr>) = grid_ok p"
  by (simp add: grid_ok_def)


lemma to_strings_Str_comp: "to_strings (map (Str \<circ> f) ps) = Inr (map f ps)"
  by (induction ps) simp_all

lemma js_join_lines_text: "js_join [CHR 0x0A] xs = lines_text xs"
proof (cases "xs = []")
  case True
  then show ?thesis by (simp add: lines_text_def)
next
  case False
  have "js_join [CHR 0x0A] xs = butlast (js_join [CHR 0x0A] xs @ [CHR 0x0A])" by simp
  also have "\<dots> = butlast (concat (map (\<lambda>x. x @ [CHR 0x0A]) xs))"
    using False by (simp only: js_join_lines if_False)
  finally show ?thesis using False by (simp add: lines_text_def)
qed

lemma pair_of_props:
  assumes "pair_of t = Some (a, b)"
  shows "get_prop t ''type'' = Inr (Str a)" "get_prop t ''description'' = Inr (Str b)"
  using assms by (cases t; auto split: option.splits jsval.splits)+

lemma all_pairs_props:
  assumes "all_pairs ts = Some ps"
  shows "map_props ts ''type'' = Inr (map Str (map fst ps))"
    "map_props ts ''description'' = Inr (map Str (map snd ps))"
  using assms
proof (induction ts arbitrary: ps)
  case Nil
  { case 1 then show ?case by simp }
  { case 2 then show ?case by simp }
next
  case (Cons t ts)
  { case 1
    then obtain a b qs where t: "pair_of t = Some (a, b)" and q: "all_pairs ts = Some qs"
      and ps: "ps = (a, b) # qs"
      by (auto split: option.splits)
    from Cons.IH(1) [OF q] pair_of_props(1) [OF t] show ?case
      by (simp add: ps and_then_def) }
  { case 2
    then obtain a b qs where t: "pair_of t = Some (a, b)" and q: "all_pairs ts = Some qs"
      and ps: "ps = (a, b) # qs"
      by (auto split: option.splits)
    from Cons.IH(2) [OF q] pair_of_props(2) [OF t] show ?case
      by (simp add: ps and_then_def) }
qed

lemma pairs_of_columns:
  assumes "pairs_of item = Some ps"
  shows "threat_column item ''type'' = Inr (lines_text (map fst ps))"
    "threat_column item ''description'' = Inr (lines_text (map snd ps))"
proof -
  from assms obtain kvs ts where item: "item = Obj kvs"
    and th: "map_of kvs ''threats'' = Some (Arr ts)" and ap: "all_pairs ts = Some ps"
    by (cases item) (auto split: option.splits jsval.splits)
  note mp = all_pairs_props [OF ap]
  show "threat_column item ''type'' = Inr (lines_text (map fst ps))"
    by (simp add: threat_column_def and_then_def item th mp(1) join_values_def
                  to_strings_Str_comp nl_def js_join_lines_text)
  show "threat_column item ''description'' = Inr (lines_text (map snd ps))"
    by (simp add: threat_column_def and_then_def item th mp(2) join_values_def
                  to_strings_Str_comp nl_def js_join_lines_text)
qed

lemma written_cells:
  assumes "length r = 4" and "threat_column item ''type'' = Inr t"
    and "threat_column item ''description'' = Inr d"
  shows "written r item ! 0 = r ! 0" "written r item ! 1 = r ! 1"
    "innerText (written r item ! 2) = t" "innerText (written r item ! 3) = d"
    "length (written r item) = 4"
  using assms by (simp_all add: written_def)

lemma applied_rows:
  assumes ok: "grid_ok p"
    and ai: "apply_items
               (if length (thead p) = 2 then map (\<lambda>tr. tr @ [new_cell, new_cell]) (tbody p)
                else tbody p) items = (new, None)"
  shows "let old = tbody p in
         length new = length old \<and>
         (\<forall>i<length old.
            (case last_entry_for (length old) items i of
               None \<Rightarrow>
                 new ! i = (if length (old ! i) = 4 then old ! i
                            else old ! i @ [new_cell, new_cell])
             | Some item \<Rightarrow>
                 length (new ! i) = 4 \<and> new ! i ! 0 = old ! i ! 0 \<and> new ! i ! 1 = old ! i ! 1 \<and>
                 threat_column item ''type'' = Inr (innerText (new ! i ! 2)) \<and>
                 threat_column item ''description'' = Inr (innerText (new ! i ! 3)) \<and>
                 (\<forall>ps. pairs_of item = Some ps \<longrightarrow>
                    innerText (new ! i ! 2) = lines_text (map fst ps) \<and>
                    innerText (new ! i ! 3) = lines_text (map snd ps))))"
proof -
  let ?old = "tbody p"
  let ?rows1 = "if length (thead p) = 2 then map (\<lambda>tr. tr @ [new_cell, new_cell]) ?old else ?old"
  note rows = apply_items_rows [OF ai]
  have len1: "length ?rows1 = length ?old" by simp
  have len: "length new = length ?old" using rows len1 by simp
  have row: "(case last_entry_for (length ?old) items i of
               None \<Rightarrow>
                 new ! i = (if length (?old ! i) = 4 then ?old ! i
                            else ?old ! i @ [new_cell, new_cell])
             | Some item \<Rightarrow>
                 length (new ! i) = 4 \<and> new ! i ! 0 = ?old ! i ! 0 \<and> new ! i ! 1 = ?old ! i ! 1 \<and>
                 threat_column item ''type'' = Inr (innerText (new ! i ! 2)) \<and>
                 threat_column item ''description'' = Inr (innerText (new ! i ! 3)) \<and>
                 (\<forall>ps. pairs_of item = Some ps \<longrightarrow>
                    innerText (new ! i ! 2) = lines_text (map fst ps) \<and>
                    innerText (new ! i ! 3) = lines_text (map snd ps)))"
    if i: "i < length ?old" for i
  proof -
    have mem: "?old ! i \<in> set ?old" using i by simp
    then have cases: "(length (thead p) = 2 \<and> length (?old ! i) = 2) \<or>
                      (length (thead p) = 4 \<and> length (?old ! i) = 4)"
      using ok by (auto simp: grid_ok_def)
    have r1: "?rows1 ! i ! 0 = ?old ! i ! 0" "?rows1 ! i ! 1 = ?old ! i ! 1"
      "length (?rows1 ! i) = 4"
      "?rows1 ! i = (if length (?old ! i) = 4 then ?old ! i else ?old ! i @ [new_cell, new_cell])"
      using cases i by (auto simp: nth_append)
    have n: "new ! i = (case last_entry_for (length ?old) items i of
                           None \<Rightarrow> ?rows1 ! i
                         | Some item \<Rightarrow> written (?rows1 ! i) item)"
      using rows i len1 by metis
    show ?thesis
    proof (cases "last_entry_for (length ?old) items i")
      case None
      with n r1(4) show ?thesis by simp
    next
      case (Some item)
      then have "item \<in> set items"
        using find_Some_in [of _ "rev items" item] by (simp add: last_entry_for_def)
      from apply_items_columns [OF ai this] obtain t d where
        cols: "threat_column item ''type'' = Inr t" "threat_column item ''description'' = Inr d"
        by blast
      note w = written_cells [OF r1(3) cols]
      from n Some have eq: "new ! i = written (?rows1 ! i) item" by simp
      have plain: "innerText (new ! i ! 2) = lines_text (map fst ps) \<and>
                   innerText (new ! i ! 3) = lines_text (map snd ps)"
        if "pairs_of item = Some ps" for ps
        using pairs_of_columns [OF that] cols w by (simp add: eq)
      from w r1 cols plain show ?thesis by (simp add: Some eq)
    qed
  qed
  from len row show ?thesis by (simp add: Let_def)
qed




lemma entry_props:
  "get_prop (entry i ty d) ''index'' = Inr (Num i)"
  "threat_column (entry i ty d) ''type'' = Inr ty"
  "threat_column (entry i ty d) ''description'' = Inr d"
  by (simp_all add: entry_def threat_column_def and_then_def join_values_def)

lemma row_index_0: "0 < n \<Longrightarrow> row_index n (Num ''0'') = Inr (Some 0)"
  by (simp add: row_index_def upt_conv_Cons show_nat_0)

lemma row4: "length r = 4 \<Longrightarrow> r[2 := a, 3 := b] = [r ! 0, r ! 1, a, b]"
  by (auto simp: length_Suc_conv numeral_eq_Suc)

lemma apply_item_entry_0:
  assumes "length r = 4"
  shows "apply_item [r] (entry ''0'' ty d) =
           ([[r ! 0, r ! 1, (r ! 2)\<lparr>innerText := ty\<rparr>, (r ! 3)\<lparr>innerText := d\<rparr>]], None)"
  using assms
  by (simp add: apply_item_def entry_props row_index_0 set_text_def row4)

text \<open>
  Claim C6. On a page with exactly one body row, a response whose payload parses to
  \<^verbatim>\<open>[{"index":0,"threats":[{"type":ty,"description":d}]}]\<close> ends without an
  error and leaves exactly one row: its first two cells untouched, its third cell with
  the text \<open>ty\<close> and its fourth with the text \<open>d\<close>. This holds for every string \<open>ty\<close>,
  in the taxonomy or not: the script never compares it with the categories.
\<close>

theorem C6_single_entry:
  assumes ok: "grid_ok p" and one: "tbody p = [r]"
    and key: "map_of (inputs p) ''api-key'' = Some k" "trim k \<noteq> []"
    and parsed: "parse_payload JSON_parse data =
                   Inr (Arr [Obj [(''index'', Num ''0''),
                                  (''threats'', Arr [Obj [(''type'', Str ty),
                                                          (''description'', Str d)]])]])"
  shows "let done = submit JSON_parse (Resolved True data) p in
         tbody (final done) =
           [[r ! 0, r ! 1,
             (if length r = 2 then new_cell else r ! 2)\<lparr>innerText := ty\<rparr>,
             (if length r = 2 then new_cell else r ! 3)\<lparr>innerText := d\<rparr>]] \<and>
         errorDiv (final done) = Text [] \<and> unhandled done = None"
proof -
  from grid_ok_snapshot [OF ok] obtain rows where snap: "snapshot (tbody p) = Inr rows" ..
  have ok0: "grid_ok (p\<lparr>errorDiv := Text []\<rparr>)" using ok by simp
  note sub = submit_reached [OF key snap, of JSON_parse "Resolved True data"]
  note tb = try_block_parsed [OF parsed [folded entry_def], of "p\<lparr>errorDiv := Text []\<rparr>"]
  note ar = apply_response_grid [OF ok0, of "[entry ''0'' ty d]"]
  from ok one have cases: "(length (thead p) = 2 \<and> length r = 2) \<or>
                           (length (thead p) = 4 \<and> length r = 4)"
    by (auto simp: grid_ok_def)
  then show ?thesis
  proof
    assume c: "length (thead p) = 2 \<and> length r = 2"
    then have w: "length (r @ [new_cell, new_cell]) = 4" by simp
    show ?thesis
      using c by (simp add: sub tb ar one Let_def apply_item_entry_0 [OF w] nth_append)
  next
    assume c: "length (thead p) = 4 \<and> length r = 4"
    then have w: "length r = 4" by simp
    show ?thesis
      using c by (simp add: sub tb ar one Let_def apply_item_entry_0 [OF w])
  qed
qed

theorem C6_single_entry_witness:
  "grid_ok (example_page ''sk-test'' [input_row ''Login'' ''User login'']) \<and>
   tbody (example_page ''sk-test'' [input_row ''Login'' ''User login'']) =
     [input_row ''Login'' ''User login''] \<and>
   map_of (inputs (example_page ''sk-test'' [input_row ''Login'' ''User login''])) ''api-key'' =
     Some ''sk-test'' \<and>
   trim ''sk-test'' \<noteq> [] \<and>
   parse_payload demo_parse (reply_data text_single) =
     Inr (Arr [Obj [(''index'', Num ''0''),
                    (''threats'', Arr [Obj [(''type'', Str ''forgery''),
                                            (''description'', Str ''x'')]])]]) \<and>
   tbody (final (submit demo_parse (Resolved True (reply_data text_single))
                   (example_page ''sk-test'' [input_row ''Login'' ''User login'']))) =
     [[\<lparr>innerText = ''Login'', contenteditable = True\<rparr>,
       \<lparr>innerText = ''User login'', contenteditable = True\<rparr>,
       \<lparr>innerText = ''forgery'', contenteditable = False\<rparr>,
       \<lparr>innerText = ''x'', contenteditable = False\<rparr>]]"
proof -
  let ?p = "example_page ''sk-test'' [input_row ''Login'' ''User login'']"
  have g: "grid_ok ?p" by code_simp
  have b: "tbody ?p = [input_row ''Login'' ''User login'']" by (simp add: example_page_def)
  have k: "map_of (inputs ?p) ''api-key'' = Some ''sk-test''" by (simp add: example_page_def)
  have t: "trim ''sk-test'' \<noteq> []" by code_simp
  have q: "parse_payload demo_parse (reply_data text_single) =
     Inr (Arr [Obj [(''index'', Num ''0''),
                    (''threats'', Arr [Obj [(''type'', Str ''forgery''),
                                            (''description'', Str ''x'')]])]])"
    by code_simp
  from C6_single_entry [OF g b k t q] g b k t q show ?thesis
    by (simp add: Let_def input_row_def new_cell_def)
qed

subsection \<open>Failed submissions\<close>

lemma try_block_early:
  assumes "res = FetchRejected \<or> res = JsonRejected \<or> (\<exists>data. res = Resolved False data) \<or>
           (\<exists>data. res = Resolved True data \<and> isl (parse_payload JSON_parse data))"
  shows "\<exists>e. try_block JSON_parse res p = (p, Some e)"
  using assms by (auto simp: try_block_def split: sum.splits)

lemma submit_page_kept:
  assumes "\<exists>e. try_block JSON_parse res (p\<lparr>errorDiv := Text []\<rparr>) = (p\<lparr>errorDiv := Text []\<rparr>, Some e)"
  shows "\<exists>d. final (submit JSON_parse res p) = p\<lparr>errorDiv := d\<rparr>"
proof -
  from assms obtain e where
    e: "try_block JSON_parse res (p\<lparr>errorDiv := Text []\<rparr>) = (p\<lparr>errorDiv := Text []\<rparr>, Some e)" ..
  show ?thesis
    by (auto simp: submit_def Let_def e split: option.splits sum.splits)
qed

lemma error_message_provider:
  assumes "get_prop data ''error'' = Inr err" and "get_prop err ''message'' = Inr (Str m)"
    and "m \<noteq> []"
  shows "error_message data = Inr m"
proof -
  from assms(2) have "err \<noteq> Undefined" "err \<noteq> Null" by auto
  then show ?thesis using assms by (simp add: error_message_def and_then_def get_prop_opt_def)
qed

text \<open>
  Claim C2. Let a submission fail in the transport (the request is rejected, the body
  of the response is not JSON, or the response is not a success) or in parsing (the
  payload of a successful response cannot be read or parsed). Then the body rows, the
  header and the input fields of the page are exactly what they were: no cell is
  changed and no column is added. If the handler got as far as the request, a response
  that is not a success shows the provider's message when the body carries one as a
  non-empty string, and a payload that does not parse shows
  \<^verbatim>\<open>Failed to parse AI response.\<close>
\<close>

theorem C2_failed_submission_keeps_rows:
  assumes fails:
    "res = FetchRejected \<or> res = JsonRejected \<or> (\<exists>data. res = Resolved False data) \<or>
     (\<exists>data. res = Resolved True data \<and> isl (parse_payload JSON_parse data))"
  shows "tbody (final (submit JSON_parse res p)) = tbody p \<and>
         thead (final (submit JSON_parse res p)) = thead p \<and>
         inputs (final (submit JSON_parse res p)) = inputs p \<and>
         (\<forall>k rows data err m.
            map_of (inputs p) ''api-key'' = Some k \<and> trim k \<noteq> [] \<and>
            snapshot (tbody p) = Inr rows \<and> res = Resolved False data \<and>
            get_prop data ''error'' = Inr err \<and> get_prop err ''message'' = Inr (Str m) \<and> m \<noteq> []
            \<longrightarrow> errorDiv (final (submit JSON_parse res p)) = Text m) \<and>
         (\<forall>k rows data.
            map_of (inputs p) ''api-key'' = Some k \<and> trim k \<noteq> [] \<and>
            snapshot (tbody p) = Inr rows \<and> res = Resolved True data
            \<longrightarrow> errorDiv (final (submit JSON_parse res p)) = Text ''Failed to parse AI response.'')"
proof -
  from submit_page_kept [OF try_block_early [OF fails]]
  obtain d where d: "final (submit JSON_parse res p) = p\<lparr>errorDiv := d\<rparr>" ..
  have kept: "tbody (final (submit JSON_parse res p)) = tbody p \<and>
         thead (final (submit JSON_parse res p)) = thead p \<and>
         inputs (final (submit JSON_parse res p)) = inputs p"
    by (simp add: d)
  have provider: "errorDiv (final (submit JSON_parse res p)) = Text m"
    if "map_of (inputs p) ''api-key'' = Some k" "trim k \<noteq> []" "snapshot (tbody p) = Inr rows"
      "res = Resolved False data" "get_prop data ''error'' = Inr err"
      "get_prop err ''message'' = Inr (Str m)" "m \<noteq> []"
    for k rows data err m
    using that
    by (simp add: submit_reached [OF that(1,2,3)] try_block_def
                  error_message_provider [OF that(5,6,7)])
  have malformed: "errorDiv (final (submit JSON_parse res p)) = Text ''Failed to parse AI response.''"
    if "map_of (inputs p) ''api-key'' = Some k" "trim k \<noteq> []" "snapshot (tbody p) = Inr rows"
      "res = Resolved True data"
    for k rows data
  proof -
    from fails that(4) have "isl (parse_payload JSON_parse data)" by auto
    then obtain e where e: "parse_payload JSON_parse data = Inl e"
      by (cases "parse_payload JSON_parse data") auto
    then have "e = Error ''Failed to parse AI response.''"
      by (auto simp: parse_payload_def split: sum.splits option.splits)
    with e show ?thesis
      by (simp add: submit_reached [OF that(1,2,3)] try_block_def that(4))
  qed
  from kept provider malformed show ?thesis by blast
qed

theorem C2_failed_submission_keeps_rows_witness:
  "isl (parse_payload demo_parse (reply_data ''{'')) \<and>
   tbody (final (submit demo_parse (Resolved True (reply_data ''{'')) two_rows)) = tbody two_rows \<and>
   thead (final (submit demo_parse (Resolved True (reply_data ''{'')) two_rows)) = thead two_rows \<and>
   errorDiv (final (submit demo_parse (Resolved True (reply_data ''{'')) two_rows)) =
     Text ''Failed to parse AI response.'' \<and>
   tbody (final (submit demo_parse (Resolved False provider_error) two_rows)) = tbody two_rows \<and>
   thead (final (submit demo_parse (Resolved False provider_error) two_rows)) = thead two_rows \<and>
   errorDiv (final (submit demo_parse (Resolved False provider_error) two_rows)) =
     Text ''Incorrect API key provided.''"
proof -
  have bad: "isl (parse_payload demo_parse (reply_data ''{''))" by code_simp
  have f1: "Resolved True (reply_data ''{'') = FetchRejected \<or>
            Resolved True (reply_data ''{'') = JsonRejected \<or>
            (\<exists>data. Resolved True (reply_data ''{'') = Resolved False data) \<or>
            (\<exists>data. Resolved True (reply_data ''{'') = Resolved True data \<and>
                    isl (parse_payload demo_parse data))"
    using bad by simp
  have f2: "Resolved False provider_error = FetchRejected \<or>
            Resolved False provider_error = JsonRejected \<or>
            (\<exists>data. Resolved False provider_error = Resolved False data) \<or>
            (\<exists>data. Resolved False provider_error = Resolved True data \<and>
                    isl (parse_payload demo_parse data))"
    by simp
  have k: "map_of (inputs two_rows) ''api-key'' = Some ''sk-test''" by code_simp
  have t: "trim ''sk-test'' \<noteq> []" by code_simp
  obtain rows where s: "snapshot (tbody two_rows) = Inr rows"
    by (cases "snapshot (tbody two_rows)") (code_simp, simp)
  have e: "get_prop provider_error ''error'' = Inr (Obj [(''message'', Str ''Incorrect API key provided.'')])"
    by (simp add: provider_error_def)
  have m: "get_prop (Obj [(''message'', Str ''Incorrect API key provided.'')]) ''message'' =
             Inr (Str ''Incorrect API key provided.'')"
    by simp
  note a = C2_failed_submission_keeps_rows [OF f1, of two_rows]
  note b = C2_failed_submission_keeps_rows [OF f2, of two_rows]
  from a k t s have a': "errorDiv (final (submit demo_parse (Resolved True (reply_data ''{'')) two_rows)) =
     Text ''Failed to parse AI response.''" by blast
  from b k t s e m have b': "errorDiv (final (submit demo_parse (Resolved False provider_error) two_rows)) =
     Text ''Incorrect API key provided.''" by blast
  from a b a' b' bad show ?thesis by blast
qed

subsection \<open>Entries that name no row\<close>

lemma apply_item_unknown:
  assumes "get_prop bad ''index'' = Inr idx" and "row_index (length rows) idx = Inr None"
  shows "apply_item rows bad = (rows, Some TypeError)"
  using assms
  by (auto simp: apply_item_def split: sum.splits dest: threat_column_Inl)

lemma apply_item_writable:
  assumes "writable (length rows) item" and "\<forall>r\<in>set rows. length r = 4"
  shows "\<exists>rows'. apply_item rows item = (rows', None)"
proof -
  from assms(1) obtain idx i where
    idx: "get_prop item ''index'' = Inr idx" and i: "row_index (length rows) idx = Inr (Some i)"
    by (auto simp: writable_def split: sum.splits option.splits)
  from assms(1) obtain t where t: "threat_column item ''type'' = Inr t"
    by (cases "threat_column item ''type''") (auto simp: writable_def)
  from assms(1) obtain d where d: "threat_column item ''description'' = Inr d"
    by (cases "threat_column item ''description''") (auto simp: writable_def)
  from row_index_bound [OF i] assms(2) have "length (rows ! i) = 4" by simp
  then show ?thesis by (simp add: apply_item_def idx i t d)
qed

lemma apply_items_writable:
  assumes "\<forall>item\<in>set items. writable (length rows) item" and "\<forall>r\<in>set rows. length r = 4"
  shows "\<exists>rows'. apply_items rows items = (rows', None)"
  using assms
proof (induction items arbitrary: rows)
  case Nil
  then show ?case by simp
next
  case (Cons item items)
  from Cons.prems have "writable (length rows) item" by simp
  from apply_item_writable [OF this Cons.prems(2)]
  obtain rows1 where one: "apply_item rows item = (rows1, None)" ..
  note lens = apply_item_lengths [OF one]
  then have len: "length rows1 = length rows" using map_eq_imp_length_eq by blast
  have "set (map length rows1) = set (map length rows)" using lens by simp
  with Cons.prems(2) have four: "\<forall>r\<in>set rows1. length r = 4" by auto
  from Cons.prems(1) len have "\<forall>item\<in>set items. writable (length rows1) item" by simp
  from Cons.IH [OF this four] one show ?case by simp
qed

lemma widened_four:
  assumes "grid_ok p"
  shows "\<forall>r\<in>set (if length (thead p) = 2
                   then map (\<lambda>tr. tr @ [new_cell, new_cell]) (tbody p) else tbody p).
           length r = 4"
  using assms by (auto simp: grid_ok_def)

text \<open>
  Claim C1, as the script has it. Let the payload parse to an array with an entry
  whose \<^verbatim>\<open>index\<close> selects no row of the table, and let every entry before it be one
  that can be written. The offending entry changes no row, but it is not skipped: it
  raises a \<open>TypeError\<close>, which ends the iteration and is caught at the end of the
  handler, so the error region shows the message of the \<open>TypeError\<close>. The table is then
  exactly what the entries before the offending one make of it: a row that none of
  them names is the row it was (with two empty cells appended if the two columns were
  not there yet), whatever the entries after the offending one say about it, and a row
  that one of them names holds the two columns of the last such entry.
\<close>

theorem C1_unknown_index_stops_batch:
  assumes ok: "grid_ok p"
    and key: "map_of (inputs p) ''api-key'' = Some k" "trim k \<noteq> []"
    and parsed: "parse_payload JSON_parse data = Inr (Arr (pre @ bad # post))"
    and before: "\<forall>item\<in>set pre. writable (length (tbody p)) item"
    and idx: "get_prop bad ''index'' = Inr idx"
    and unknown: "row_index (length (tbody p)) idx = Inr None"
  shows "let done = submit JSON_parse (Resolved True data) p;
             old = tbody p; new = tbody (final done) in
         errorDiv (final done) = EngineText TypeError \<and> unhandled done = None \<and>
         length new = length old \<and>
         (\<forall>i<length old.
            (case last_entry_for (length old) pre i of
               None \<Rightarrow>
                 new ! i = (if length (old ! i) = 4 then old ! i
                            else old ! i @ [new_cell, new_cell])
             | Some item \<Rightarrow>
                 length (new ! i) = 4 \<and> new ! i ! 0 = old ! i ! 0 \<and> new ! i ! 1 = old ! i ! 1 \<and>
                 threat_column item ''type'' = Inr (innerText (new ! i ! 2)) \<and>
                 threat_column item ''description'' = Inr (innerText (new ! i ! 3)) \<and>
                 (\<forall>ps. pairs_of item = Some ps \<longrightarrow>
                    innerText (new ! i ! 2) = lines_text (map fst ps) \<and>
                    innerText (new ! i ! 3) = lines_text (map snd ps))))"
proof -
  from grid_ok_snapshot [OF ok] obtain rows where snap: "snapshot (tbody p) = Inr rows" ..
  have ok0: "grid_ok (p\<lparr>errorDiv := Text []\<rparr>)" using ok by simp
  note sub = submit_reached [OF key snap, of JSON_parse "Resolved True data"]
  note tb = try_block_parsed [OF parsed, of "p\<lparr>errorDiv := Text []\<rparr>"]
  let ?rows1 = "if length (thead p) = 2 then map (\<lambda>tr. tr @ [new_cell, new_cell]) (tbody p)
                else tbody p"
  have len1: "length ?rows1 = length (tbody p)" by simp
  from before len1 have w: "\<forall>item\<in>set pre. writable (length ?rows1) item" by simp
  from apply_items_writable [OF w widened_four [OF ok]]
  obtain rows' where pre: "apply_items ?rows1 pre = (rows', None)" ..
  from apply_items_lengths [OF pre] have "length rows' = length ?rows1"
    using map_eq_imp_length_eq by blast
  with unknown have "row_index (length rows') idx = Inr None" by simp
  from apply_item_unknown [OF idx this]
  have all: "apply_items ?rows1 (pre @ bad # post) = (rows', Some TypeError)"
    by (simp add: apply_items_append pre)
  have fin: "tbody (final (submit JSON_parse (Resolved True data) p)) = rows' \<and>
             errorDiv (final (submit JSON_parse (Resolved True data) p)) = EngineText TypeError \<and>
             unhandled (submit JSON_parse (Resolved True data) p) = None"
  proof (cases "length (thead p) = 2")
    case True
    with all show ?thesis
      by (simp add: sub tb apply_response_grid [OF ok0] Let_def)
  next
    case False
    with all show ?thesis
      by (simp add: sub tb apply_response_grid [OF ok0] Let_def)
  qed
  from fin have new: "tbody (final (submit JSON_parse (Resolved True data) p)) = rows'"
    and shown: "errorDiv (final (submit JSON_parse (Resolved True data) p)) = EngineText TypeError"
    and caught: "unhandled (submit JSON_parse (Resolved True data) p) = None"
    by simp_all
  show ?thesis
    unfolding Let_def new shown caught
    using applied_rows [OF ok pre, unfolded Let_def] by blast
qed

theorem C1_unknown_index_stops_batch_witness:
  "grid_ok two_rows \<and>
   map_of (inputs two_rows) ''api-key'' = Some ''sk-test'' \<and>
   trim ''sk-test'' \<noteq> [] \<and>
   parse_payload demo_parse (reply_data text_three) =
     Inr (Arr ([entry ''1'' ''trojan'' ''y''] @ entry ''5'' ''forgery'' ''x'' #
               [entry ''0'' ''forgery'' ''x''])) \<and>
   list_all (writable (length (tbody two_rows))) [entry ''1'' ''trojan'' ''y''] \<and>
   get_prop (entry ''5'' ''forgery'' ''x'') ''index'' = Inr (Num ''5'') \<and>
   row_index (length (tbody two_rows)) (Num ''5'') = Inr None \<and>
   errorDiv (final (submit demo_parse (Resolved True (reply_data text_three)) two_rows)) =
     EngineText TypeError \<and>
   tbody (final (submit demo_parse (Resolved True (reply_data text_three)) two_rows)) ! 0 =
     [\<lparr>innerText = ''Login'', contenteditable = True\<rparr>,
      \<lparr>innerText = ''User login'', contenteditable = True\<rparr>,
      \<lparr>innerText = [], contenteditable = False\<rparr>,
      \<lparr>innerText = [], contenteditable = False\<rparr>] \<and>
   innerText (tbody (final (submit demo_parse (Resolved True (reply_data text_three)) two_rows))
                ! 1 ! 2) = ''trojan'' \<and>
   innerText (tbody (final (submit demo_parse (Resolved True (reply_data text_three)) two_rows))
                ! 1 ! 3) = ''y''"
proof -
  let ?new = "tbody (final (submit demo_parse (Resolved True (reply_data text_three)) two_rows))"
  have g: "grid_ok two_rows" by code_simp
  have k: "map_of (inputs two_rows) ''api-key'' = Some ''sk-test''" by code_simp
  have t: "trim ''sk-test'' \<noteq> []" by code_simp
  have q: "parse_payload demo_parse (reply_data text_three) =
     Inr (Arr ([entry ''1'' ''trojan'' ''y''] @ entry ''5'' ''forgery'' ''x'' #
               [entry ''0'' ''forgery'' ''x'']))"
    by code_simp
  have w: "list_all (writable (length (tbody two_rows))) [entry ''1'' ''trojan'' ''y'']"
    by code_simp
  then have b: "\<forall>item\<in>set [entry ''1'' ''trojan'' ''y'']. writable (length (tbody two_rows)) item"
    by (simp only: list_all_iff)
  have i: "get_prop (entry ''5'' ''forgery'' ''x'') ''index'' = Inr (Num ''5'')" by code_simp
  have u: "row_index (length (tbody two_rows)) (Num ''5'') = Inr None" by code_simp
  have n: "length (tbody two_rows) = 2" by code_simp
  have l0: "last_entry_for 2 [entry ''1'' ''trojan'' ''y''] 0 = None" by code_simp
  have l1: "last_entry_for 2 [entry ''1'' ''trojan'' ''y''] 1 = Some (entry ''1'' ''trojan'' ''y'')"
    by code_simp
  have ps: "pairs_of (entry ''1'' ''trojan'' ''y'') = Some [(''trojan'', ''y'')]" by code_simp
  have lt: "lines_text [''trojan''] = ''trojan''" "lines_text [''y''] = ''y''"
    by (simp_all add: lines_text_def)
  have r0: "(if length (tbody two_rows ! 0) = 4 then tbody two_rows ! 0
             else tbody two_rows ! 0 @ [new_cell, new_cell]) =
     [\<lparr>innerText = ''Login'', contenteditable = True\<rparr>,
      \<lparr>innerText = ''User login'', contenteditable = True\<rparr>,
      \<lparr>innerText = [], contenteditable = False\<rparr>,
      \<lparr>innerText = [], contenteditable = False\<rparr>]"
    by code_simp
  note th = C1_unknown_index_stops_batch [OF g k t q b i u, unfolded Let_def n]
  from th have e: "errorDiv (final (submit demo_parse (Resolved True (reply_data text_three))
                     two_rows)) = EngineText TypeError"
    by blast
  note row = th [THEN conjunct2, THEN conjunct2, THEN conjunct2, rule_format]
  have z: "(0::nat) < 2" and o: "(1::nat) < 2" by simp_all
  from row [OF z] l0 have c0: "?new ! 0 =
     [\<lparr>innerText = ''Login'', contenteditable = True\<rparr>,
      \<lparr>innerText = ''User login'', contenteditable = True\<rparr>,
      \<lparr>innerText = [], contenteditable = False\<rparr>,
      \<lparr>innerText = [], contenteditable = False\<rparr>]"
    by (simp add: r0)
  from row [OF o] l1 ps lt have c1:
    "innerText (?new ! 1 ! 2) = ''trojan'' \<and> innerText (?new ! 1 ! 3) = ''y''"
    by simp
  from g k t q w i u e c0 c1 show ?thesis by blast
qed

text \<open>
  The claim as written fails: with two rows, the response
  \<^verbatim>\<open>[{"index":5,...},{"index":0,...}]\<close> puts an error message into the error region,
  and the entry for row 0, a valid index in the same batch, is not written.
\<close>

theorem C1_batch_error_counterexample:
  "row_index (length (tbody two_rows)) (Num ''5'') = Inr None \<and>
   row_index (length (tbody two_rows)) (Num ''0'') = Inr (Some 0) \<and>
   parse_payload demo_parse (reply_data text_unknown_first) =
     Inr (Arr [entry ''5'' ''forgery'' ''x'', entry ''0'' ''forgery'' ''x'']) \<and>
   errorDiv (final (submit demo_parse (Resolved True (reply_data text_unknown_first)) two_rows)) =
     EngineText TypeError \<and>
   map threats_of
     (tbody (final (submit demo_parse (Resolved True (reply_data text_unknown_first)) two_rows))) =
     [([], []), ([], [])]"
  by code_simp

subsection \<open>The shape of the table along a run\<close>

lemma grid_ok_lengths:
  assumes h: "length (thead p') = length (thead p)"
    and b: "map length (tbody p') = map length (tbody p)"
  shows "grid_ok p' = grid_ok p"
proof -
  have rows: "(\<forall>tr\<in>set (tbody q). length tr = n) \<longleftrightarrow> (\<forall>m\<in>length ` set (tbody q). m = n)"
    for q :: page and n
    by blast
  have img: "length ` set (tbody p') = length ` set (tbody p)"
    using b by (metis set_map)
  show ?thesis unfolding grid_ok_def rows h img by (rule refl)
qed

lemma grid_ok_add_row:
  assumes "grid_ok p"
  shows "grid_ok (add_row p)" "length (blank_row p) = length (thead p)"
  using assms by (auto simp: grid_ok_def add_row_tbody add_row_fields blank_row_props)

lemma apply_response_shape:
  assumes ok: "grid_ok p" and r: "apply_response p parsed = (p', e)"
  shows "grid_ok p' \<and>
         thead p' = (if length (thead p) = 2 then thead p @ threat_head else thead p)"
proof -
  let ?p1 = "if length (thead p) = 2
             then p\<lparr>thead := thead p @ threat_head,
                    tbody := map (\<lambda>tr. tr @ [new_cell, new_cell]) (tbody p)\<rparr>
             else p"
  have a: "add_columns p = (?p1, None)" by (simp add: add_columns_grid [OF ok])
  have g1: "grid_ok ?p1" using ok by (auto simp: grid_ok_def threat_head_def)
  have h1: "thead ?p1 = (if length (thead p) = 2 then thead p @ threat_head else thead p)"
    by simp
  show ?thesis
  proof (cases parsed)
    case (Arr items)
    obtain rows e' where ai: "apply_items (tbody ?p1) items = (rows, e')"
      by (cases "apply_items (tbody ?p1) items")
    from r have p': "p' = ?p1\<lparr>tbody := rows\<rparr>"
      unfolding apply_response_def a Arr using ai by simp
    have "grid_ok (?p1\<lparr>tbody := rows\<rparr>) = grid_ok ?p1"
      by (rule grid_ok_lengths) (simp_all add: apply_items_lengths [OF ai])
    with g1 h1 show ?thesis unfolding p' by simp
  qed (use r g1 h1 in \<open>simp_all add: apply_response_def a\<close>)
qed

lemma try_block_shape:
  assumes ok: "grid_ok p" and r: "try_block JSON_parse res p = (p', e)"
  shows "grid_ok p' \<and>
         thead p' =
           (if length (thead p) = 2 \<and>
               (case res of
                  Resolved ok data \<Rightarrow> ok \<and> \<not> isl (parse_payload JSON_parse data)
                | _ \<Rightarrow> False)
            then thead p @ threat_head else thead p)"
proof (cases res)
  case FetchRejected
  with r ok show ?thesis by (simp add: try_block_def)
next
  case JsonRejected
  with r ok show ?thesis by (simp add: try_block_def)
next
  case (Resolved good data)
  show ?thesis
  proof (cases "good \<and> \<not> isl (parse_payload JSON_parse data)")
    case True
    then obtain parsed where q: "parse_payload JSON_parse data = Inr parsed"
      by (cases "parse_payload JSON_parse data") auto
    from r have "apply_response p parsed = (p', e)"
      using True by (simp add: try_block_def Resolved q)
    from apply_response_shape [OF ok this] True show ?thesis by (simp add: Resolved)
  next
    case False
    with r have "p' = p"
      by (auto simp: try_block_def Resolved split: sum.splits if_splits)
    with ok False show ?thesis by (auto simp: Resolved)
  qed
qed

lemma step_shape:
  assumes ok: "grid_ok p"
  shows "grid_ok (step JSON_parse p ev) \<and>
         thead (step JSON_parse p ev) =
           (if length (thead p) = 2 \<and> payload_parsed JSON_parse p ev
            then thead p @ threat_head else thead p)"
proof (cases ev)
  case AddRow
  then show ?thesis using grid_ok_add_row(1) [OF ok] by (simp add: add_row_fields)
next
  case (Submit res)
  show ?thesis
  proof (cases "map_of (inputs p) ''api-key''")
    case None
    then show ?thesis using ok by (simp add: Submit submit_def Let_def)
  next
    case (Some k)
    show ?thesis
    proof (cases "trim k = []")
      case True
      then show ?thesis using ok Some by (simp add: Submit submit_def Let_def)
    next
      case False
      from grid_ok_snapshot [OF ok] obtain rows where snap: "snapshot (tbody p) = Inr rows" ..
      obtain p' e where tb: "try_block JSON_parse res (p\<lparr>errorDiv := Text []\<rparr>) = (p', e)"
        by (cases "try_block JSON_parse res (p\<lparr>errorDiv := Text []\<rparr>)")
      have ok0: "grid_ok (p\<lparr>errorDiv := Text []\<rparr>)" using ok by simp
      note sh = try_block_shape [OF ok0 tb]
      have fin: "final (submit JSON_parse res p) =
                   (case e of None \<Rightarrow> p' | Some err \<Rightarrow> p'\<lparr>errorDiv := message err\<rparr>)"
        by (simp add: submit_reached [OF Some False snap] tb split: option.splits)
      have "grid_ok (final (submit JSON_parse res p))"
        using sh by (simp add: fin split: option.splits)
      moreover have "thead (final (submit JSON_parse res p)) = thead p'"
        by (simp add: fin split: option.splits)
      ultimately show ?thesis
        using sh Some False snap by (simp add: Submit)
    qed
  qed
qed

lemma run_shape:
  assumes "grid_ok p"
  shows "grid_ok (run JSON_parse p evs) \<and>
         thead (run JSON_parse p evs) =
           (if length (thead p) = 2 \<and> ever_parsed JSON_parse p evs
            then thead p @ threat_head else thead p)"
  using assms
proof (induction evs arbitrary: p)
  case Nil
  then show ?case by simp
next
  case (Cons ev evs)
  note st = step_shape [OF Cons.prems, of JSON_parse ev]
  from st have g: "grid_ok (step JSON_parse p ev)" by simp
  note ih = Cons.IH [OF g]
  show ?case
  proof (cases "length (thead p) = 2 \<and> payload_parsed JSON_parse p ev")
    case True
    with st have eq: "thead (step JSON_parse p ev) = thead p @ threat_head"
      by simp
    from True have four: "length (thead p @ threat_head) \<noteq> 2"
      by (simp add: threat_head_def)
    from ih [unfolded eq] True four show ?thesis by simp
  next
    case False
    with st have eq: "thead (step JSON_parse p ev) = thead p" by auto
    from ih [unfolded eq] False show ?thesis by (cases "length (thead p) = 2") simp_all
  qed
qed

text \<open>
  Claim C10, as the script has it. Start from a page whose header has two cells or
  four and whose rows match it. After every sequence of clicks on the two buttons the
  header still has two cells or four and every body row has as many cells as the
  header. A header of four cells never changes. A header of two cells stays as it is
  until a submission gets a payload that parses; from that submission on it is the
  original one followed by the two threat cells, once, whether or not writing the
  entries back succeeded. A row added afterwards has as many cells as the header has
  then.
\<close>

theorem C10_rows_match_header:
  assumes "grid_ok p"
  shows "let q = run JSON_parse p evs in
         (length (thead q) = 2 \<or> length (thead q) = 4) \<and>
         (\<forall>tr\<in>set (tbody q). length tr = length (thead q)) \<and>
         thead q = (if length (thead p) = 2 \<and> ever_parsed JSON_parse p evs
                    then thead p @ threat_head else thead p) \<and>
         tbody (add_row q) = tbody q @ [blank_row q] \<and>
         length (blank_row q) = length (thead q)"
proof -
  note sh = run_shape [OF assms, of JSON_parse evs]
  from sh have g: "grid_ok (run JSON_parse p evs)" by simp
  from g have shape: "(length (thead (run JSON_parse p evs)) = 2 \<or>
                       length (thead (run JSON_parse p evs)) = 4) \<and>
         (\<forall>tr\<in>set (tbody (run JSON_parse p evs)).
            length tr = length (thead (run JSON_parse p evs)))"
    by (simp add: grid_ok_def)
  from shape sh grid_ok_add_row(2) [OF g] show ?thesis
    by (simp add: Let_def add_row_tbody)
qed

theorem C10_rows_match_header_witness:
  "grid_ok (example_page ''sk-test'' []) \<and>
   map length (tbody (run demo_parse (example_page ''sk-test'' [])
      [AddRow, Submit (Resolved True (reply_data ''{'')), AddRow])) = [2, 2] \<and>
   thead (run demo_parse (example_page ''sk-test'' [])
      [AddRow, Submit (Resolved True (reply_data ''{'')), AddRow]) =
     thead (example_page ''sk-test'' []) \<and>
   map length (tbody (run demo_parse (example_page ''sk-test'' [])
      [AddRow, Submit (Resolved True (reply_data text_single)), AddRow])) = [4, 4] \<and>
   thead (run demo_parse (example_page ''sk-test'' [])
      [AddRow, Submit (Resolved True (reply_data text_single)), AddRow]) =
     thead (example_page ''sk-test'' []) @ threat_head"
proof -
  let ?p = "example_page ''sk-test'' []"
  let ?a = "[AddRow, Submit (Resolved True (reply_data ''{'')), AddRow]"
  let ?b = "[AddRow, Submit (Resolved True (reply_data text_single)), AddRow]"
  have g: "grid_ok ?p" by code_simp
  have h: "length (thead ?p) = 2" by code_simp
  have ea: "\<not> ever_parsed demo_parse ?p ?a" by code_simp
  have eb: "ever_parsed demo_parse ?p ?b" by code_simp
  have la: "map length (tbody (run demo_parse ?p ?a)) = [2, 2]" by code_simp
  have lb: "map length (tbody (run demo_parse ?p ?b)) = [4, 4]" by code_simp
  note ta = C10_rows_match_header [OF g, of demo_parse ?a, unfolded Let_def]
  note tb = C10_rows_match_header [OF g, of demo_parse ?b, unfolded Let_def]
  from ta have "thead (run demo_parse ?p ?a) =
      (if length (thead ?p) = 2 \<and> ever_parsed demo_parse ?p ?a
       then thead ?p @ threat_head else thead ?p)" by blast
  with ea have ha: "thead (run demo_parse ?p ?a) = thead ?p"
    by (simp only: simp_thms if_False)
  from tb have "thead (run demo_parse ?p ?b) =
      (if length (thead ?p) = 2 \<and> ever_parsed demo_parse ?p ?b
       then thead ?p @ threat_head else thead ?p)" by blast
  with eb h have hb: "thead (run demo_parse ?p ?b) = thead ?p @ threat_head"
    by (simp only: simp_thms if_True)
  from g la lb ha hb show ?thesis by blast
qed

text \<open>
  The claim as written fails: a payload that parses to an object, not an array, makes
  the submission fail with an error message and leaves every row without threats, yet
  the header and the rows have four cells afterwards.
\<close>

theorem C10_columns_after_failure_counterexample:
  "length (thead two_rows) = 2 \<and>
   errorDiv (final (submit demo_parse (Resolved True (reply_data text_object)) two_rows)) =
     EngineText TypeError \<and>
   map threats_of
     (tbody (final (submit demo_parse (Resolved True (reply_data text_object)) two_rows))) =
     [([], []), ([], [])] \<and>
   length (thead (final (submit demo_parse (Resolved True (reply_data text_object)) two_rows))) = 4 \<and>
   map length
     (tbody (final (submit demo_parse (Resolved True (reply_data text_object)) two_rows))) = [4, 4]"
  by code_simp

end
